theory Spec2Isabelle
  imports Main "HOL-Library.Word"
begin

unbundle bit_operations_syntax

section \<open>Colour palettes (television/colors/32bit.go)\<close>

text \<open>
  The raw colour tables are 32-bit numbers holding the three components; \<open>init\<close>
  splits each into an \<open>RGB\<close> triple and appends it to the palette, twice for the NTSC
  and PAL palettes and once for the alternative palette.
\<close>

record RGB =
  Red :: "8 word"
  Green :: "8 word"
  Blue :: "8 word"

definition alt32bit :: "32 word list" where
  "alt32bit =
    [0x111111, 0x84c8fc, 0x9246c0, 0x901c00, 0xe8e84a, 0xd5824a, 0x328432]"

definition ntsc32bit :: "32 word list" where
  "ntsc32bit =
    [0x000000, 0x404040, 0x6c6c6c, 0x909090, 0xb0b0b0, 0xc8c8c8, 0xdcdcdc, 0xececec,
     0x444400, 0x646410, 0x848424, 0xa0a034, 0xb8b840, 0xd0d050, 0xe8e85c, 0xfcfc68,
     0x702800, 0x844414, 0x985c28, 0xac783c, 0xbc8c4c, 0xcca05c, 0xdcb468, 0xecc878,
     0x841800, 0x983418, 0xac5030, 0xc06848, 0xd0805c, 0xe09470, 0xeca880, 0xfcbc94,
     0x880000, 0x9c2020, 0xb03c3c, 0xc05858, 0xd07070, 0xe08888, 0xeca0a0, 0xfcb4b4,
     0x78005c, 0x8c2074, 0xa03c88, 0xb0589c, 0xc070b0, 0xd084c0, 0xdc9cd0, 0xecb0e0,
     0x480078, 0x602090, 0x783ca4, 0x8c58b8, 0xa070cc, 0xb484dc, 0xc49cec, 0xd4b0fc,
     0x140084, 0x302098, 0x4c3cac, 0x6858c0, 0x7c70d0, 0x9488e0, 0xa8a0ec, 0xbcb4fc,
     0x000088, 0x1c209c, 0x3840b0, 0x505cc0, 0x6874d0, 0x7c8ce0, 0x90a4ec, 0xa4b8fc,
     0x00187c, 0x1c3890, 0x3854a8, 0x5070bc, 0x6888cc, 0x7c9cdc, 0x90b4ec, 0xa4c8fc,
     0x002c5c, 0x1c4c78, 0x386890, 0x5084ac, 0x689cc0, 0x7cb4d4, 0x90cce8, 0xa4e0fc,
     0x003c2c, 0x1c5c48, 0x387c64, 0x509c80, 0x68b494, 0x7cd0ac, 0x90e4c0, 0xa4fcd4,
     0x003c00, 0x205c20, 0x407c40, 0x5c9c5c, 0x74b474, 0x8cd08c, 0xa4e4a4, 0xb8fcb8,
     0x143800, 0x345c1c, 0x507c38, 0x6c9850, 0x84b468, 0x9ccc7c, 0xb4e490, 0xc8fca4,
     0x2c3000, 0x4c501c, 0x687034, 0x848c4c, 0x9ca864, 0xb4c078, 0xccd488, 0xe0ec9c,
     0x442800, 0x644818, 0x846830, 0xa08444, 0xb89c58, 0xd0b46c, 0xe8cc7c, 0xfce08c]"

definition pal32bit :: "32 word list" where
  "pal32bit =
    [0x000000, 0x282828, 0x505050, 0x747474, 0x949494, 0xb4b4b4, 0xd0d0d0, 0xececec,
     0x000000, 0x282828, 0x505050, 0x747474, 0x949494, 0xb4b4b4, 0xd0d0d0, 0xececec,
     0x805800, 0x947020, 0xa8843c, 0xbc9c58, 0xccac70, 0xdcc084, 0xecd09c, 0xfce0b0,
     0x445c00, 0x5c7820, 0x74903c, 0x8cac58, 0xa0c070, 0xb0d484, 0xc4e89c, 0xd4fcb0,
     0x703400, 0x885020, 0xa0683c, 0xb48458, 0xc89870, 0xdcac84, 0xecc09c, 0xfcd4b0,
     0x006414, 0x208034, 0x3c9850, 0x58b06c, 0x70c484, 0x84d89c, 0x9ce8b4, 0xb0fcc8,
     0x700014, 0x882034, 0xa03c50, 0xb4586c, 0xc87084, 0xdc849c, 0xec9cb4, 0xfcb0c8,
     0x005c5c, 0x207474, 0x3c8c8c, 0x58a4a4, 0x70b8b8, 0x84c8c8, 0x9cdcdc, 0xb0ecec,
     0x70005c, 0x842074, 0x943c88, 0xa8589c, 0xb470b0, 0xc484c0, 0xd09cd0, 0xe0b0e0,
     0x003c70, 0x1c5888, 0x3874a0, 0x508cb4, 0x68a4c8, 0x7cb8dc, 0x90ccec, 0xa4e0fc,
     0x580070, 0x6c2088, 0x803ca0, 0x9458b4, 0xa470c8, 0xb484dc, 0xc49cec, 0xd4b0fc,
     0x002070, 0x1c3c88, 0x3858a0, 0x5074b4, 0x6888c8, 0x7ca0dc, 0x90b4ec, 0xa4c8fc,
     0x3c0080, 0x542094, 0x6c3ca8, 0x8058bd, 0x9470cc, 0xa884dc, 0xb89cec, 0xc8b0fc,
     0x000088, 0x20209c, 0x3c3cb0, 0x5858c0, 0x7070d0, 0x8484e0, 0x9c9cec, 0xb0b0fc,
     0x000000, 0x282828, 0x505050, 0x747474, 0x949494, 0xb4b4b4, 0xd0d0d0, 0xececec,
     0x000000, 0x282828, 0x505050, 0x747474, 0x949494, 0xb4b4b4, 0xd0d0d0, 0xececec]"

text \<open>
  \<open>byte((col&0xff0000)>>16), byte((col&0xff00)>>8), byte(col&0xff)\<close>: the conversion
  to \<open>byte\<close> keeps the low eight bits.
\<close>

definition components :: "32 word \<Rightarrow> RGB" where
  "components col =
     \<lparr> Red = ucast (drop_bit 16 (col AND 0xff0000)),
       Green = ucast (drop_bit 8 (col AND 0xff00)),
       Blue = ucast (col AND 0xff) \<rparr>"

text \<open>One iteration of the NTSC and PAL loops: the colour is appended twice.\<close>

definition appendTwice :: "RGB list \<Rightarrow> 32 word \<Rightarrow> RGB list" where
  "appendTwice palette col = (palette @ [components col]) @ [components col]"

definition appendOnce :: "RGB list \<Rightarrow> 32 word \<Rightarrow> RGB list" where
  "appendOnce palette col = palette @ [components col]"

text \<open>The three loops of \<open>init\<close>, each starting from the empty (nil) palette.\<close>

definition PaletteNTSC :: "RGB list" where
  "PaletteNTSC = foldl appendTwice [] ntsc32bit"

definition PalettePAL :: "RGB list" where
  "PalettePAL = foldl appendTwice [] pal32bit"

definition PaletteAlt :: "RGB list" where
  "PaletteAlt = foldl appendOnce [] alt32bit"

section \<open>Properties of the palettes\<close>

fun doubled :: "'a list \<Rightarrow> 'a list" where
  "doubled [] = []"
| "doubled (x # xs) = x # x # doubled xs"

lemma foldl_appendTwice:
  "foldl appendTwice acc cols = acc @ doubled (map components cols)"
  by (induction cols arbitrary: acc) (simp_all add: appendTwice_def)

lemma length_doubled: "length (doubled xs) = 2 * length xs"
  by (induction xs) simp_all

lemma doubled_pair:
  "even i \<Longrightarrow> i < length (doubled xs) \<Longrightarrow>
     Suc i < length (doubled xs) \<and> doubled xs ! i = doubled xs ! Suc i"
proof (induction xs arbitrary: i)
  case Nil
  then show ?case by simp
next
  case (Cons x xs)
  show ?case
  proof (cases i)
    case 0
    then show ?thesis by simp
  next
    case (Suc j)
    with Cons.prems obtain k where k: "j = Suc k"
      by (cases j) auto
    with Suc Cons.prems have "even k" "k < length (doubled xs)"
      by simp_all
    from Cons.IH [OF this] show ?thesis
      by (simp add: Suc k)
  qed
qed

lemma doubled_nth: "i < length (doubled xs) \<Longrightarrow> doubled xs ! i = xs ! (i div 2)"
proof (induction xs arbitrary: i)
  case Nil
  then show ?case by simp
next
  case (Cons x xs)
  show ?case
  proof (cases i)
    case 0
    then show ?thesis by simp
  next
    case (Suc j)
    show ?thesis
    proof (cases j)
      case 0
      with Suc show ?thesis by simp
    next
      case (Suc k)
      with \<open>i = Suc j\<close> Cons.prems have "k < length (doubled xs)"
        by simp
      from Cons.IH [OF this] show ?thesis
        by (simp add: \<open>i = Suc j\<close> Suc)
    qed
  qed
qed

lemma length_ntsc32bit: "length ntsc32bit = 128"
  by (simp add: ntsc32bit_def)

lemma length_pal32bit: "length pal32bit = 128"
  by (simp add: pal32bit_def)

lemma length_PaletteNTSC: "length PaletteNTSC = 256"
  by (simp add: PaletteNTSC_def foldl_appendTwice length_doubled length_ntsc32bit)

lemma length_PalettePAL: "length PalettePAL = 256"
  by (simp add: PalettePAL_def foldl_appendTwice length_doubled length_pal32bit)

lemma PaletteNTSC_nth:
  "i < length PaletteNTSC \<Longrightarrow> PaletteNTSC ! i = components (ntsc32bit ! (i div 2))"
proof -
  assume bound: "i < length PaletteNTSC"
  then have "i < length (doubled (map components ntsc32bit))"
    by (simp add: PaletteNTSC_def foldl_appendTwice)
  from doubled_nth [OF this] bound show ?thesis
    by (simp add: PaletteNTSC_def foldl_appendTwice length_doubled)
qed

lemma PalettePAL_nth:
  "i < length PalettePAL \<Longrightarrow> PalettePAL ! i = components (pal32bit ! (i div 2))"
proof -
  assume bound: "i < length PalettePAL"
  then have "i < length (doubled (map components pal32bit))"
    by (simp add: PalettePAL_def foldl_appendTwice)
  from doubled_nth [OF this] bound show ?thesis
    by (simp add: PalettePAL_def foldl_appendTwice length_doubled)
qed

text \<open>
  C10. In the NTSC and PAL palettes every raw colour is appended twice in consecutive
  positions: for every even index \<open>i\<close> within bounds, entry \<open>i + 1\<close> is within bounds
  too and equals entry \<open>i\<close>, in both palettes. Entry \<open>j\<close> of a palette holds the
  components of the raw colour \<open>j div 2\<close>, so that the least significant bit of an
  index never affects the colour.
\<close>

theorem palette_entries_paired:
  "(even i \<and> i < length PaletteNTSC \<longrightarrow>
      Suc i < length PaletteNTSC \<and> PaletteNTSC ! i = PaletteNTSC ! Suc i)
   \<and> (even i \<and> i < length PalettePAL \<longrightarrow>
      Suc i < length PalettePAL \<and> PalettePAL ! i = PalettePAL ! Suc i)
   \<and> (j < length PaletteNTSC \<longrightarrow> PaletteNTSC ! j = components (ntsc32bit ! (j div 2)))
   \<and> (j < length PalettePAL \<longrightarrow> PalettePAL ! j = components (pal32bit ! (j div 2)))"
proof -
  have "Suc i < length PaletteNTSC \<and> PaletteNTSC ! i = PaletteNTSC ! Suc i"
    if "even i" and "i < length PaletteNTSC"
    using that doubled_pair [of i "map components ntsc32bit"]
    by (simp add: PaletteNTSC_def foldl_appendTwice)
  moreover have "Suc i < length PalettePAL \<and> PalettePAL ! i = PalettePAL ! Suc i"
    if "even i" and "i < length PalettePAL"
    using that doubled_pair [of i "map components pal32bit"]
    by (simp add: PalettePAL_def foldl_appendTwice)
  ultimately show ?thesis
    using PaletteNTSC_nth [of j] PalettePAL_nth [of j] by blast
qed

theorem palette_entries_paired_witness:
  "even (6::nat) \<and> 6 < length PaletteNTSC \<and> 6 < length PalettePAL
   \<and> 7 < length PaletteNTSC \<and> 7 < length PalettePAL
   \<and> Suc 6 < length PaletteNTSC \<and> PaletteNTSC ! 6 = PaletteNTSC ! Suc 6
   \<and> Suc 6 < length PalettePAL \<and> PalettePAL ! 6 = PalettePAL ! Suc 6
   \<and> PaletteNTSC ! 7 = components (ntsc32bit ! (7 div 2))
   \<and> PalettePAL ! 7 = components (pal32bit ! (7 div 2))"
  using palette_entries_paired [of 6 7]
  by (simp add: length_PaletteNTSC length_PalettePAL)

section \<open>Validity of an execution result (hardware/cpu/execution/validity.go)\<close>

text \<open>
  The fields of the instruction definition and of the execution result that \<open>IsValid\<close>
  reads. The declarations of both types are outside the sources embedded here; \<open>IsBranch\<close> is a
  method of the definition there and is a field here. Go's \<open>int\<close> is modelled by
  \<open>int\<close>: byte and cycle counts are single digits.
\<close>

record Definition =
  OpCode :: "8 word"
  Mnemonic :: string
  Bytes :: int
  Cycles :: int
  PageSensitive :: bool
  IsBranch :: bool

record Result =
  Defn :: Definition
  ByteCount :: int
  ActualCycles :: int
  PageFault :: bool
  CPUBug :: string
  Final :: bool

text \<open>
  Every error of \<open>IsValid\<close> is of kind \<open>errors.InvalidResult\<close>; the constructor says
  which one and carries the values its message is formatted from.
\<close>

datatype InvalidResult =
  NotFinalised
  | UnexpectedPageFault
  | UnexpectedByteCount int int
  | WrongCyclesBranch "8 word" string int int
  | WrongCyclesPageSensitive "8 word" string int int
  | WrongCycles "8 word" string int int

definition IsValid :: "Result \<Rightarrow> InvalidResult option" where
  "IsValid result =
     (if \<not> Final result then Some NotFinalised
      else if \<not> PageSensitive (Defn result) \<and> PageFault result then Some UnexpectedPageFault
      else if ByteCount result \<noteq> Bytes (Defn result)
        then Some (UnexpectedByteCount (ByteCount result) (Bytes (Defn result)))
      else if CPUBug result = []
        then (if IsBranch (Defn result)
          then (if ActualCycles result \<noteq> Cycles (Defn result)
                   \<and> ActualCycles result \<noteq> Cycles (Defn result) + 1
                   \<and> ActualCycles result \<noteq> Cycles (Defn result) + 2
                then Some (WrongCyclesBranch (OpCode (Defn result)) (Mnemonic (Defn result))
                       (ActualCycles result) (Cycles (Defn result)))
                else None)
          else (if PageSensitive (Defn result)
            then (if PageFault result
                     \<and> ActualCycles result \<noteq> Cycles (Defn result)
                     \<and> ActualCycles result \<noteq> Cycles (Defn result) + 1
                  then Some (WrongCyclesPageSensitive (OpCode (Defn result))
                         (Mnemonic (Defn result)) (ActualCycles result) (Cycles (Defn result)))
                  else None)
            else (if ActualCycles result \<noteq> Cycles (Defn result)
                  then Some (WrongCycles (OpCode (Defn result)) (Mnemonic (Defn result))
                         (ActualCycles result) (Cycles (Defn result)))
                  else None)))
      else None)"

text \<open>
  The cycle counts the documentation allows: the base count, one more for a page-crossed
  page-sensitive instruction, one or two more for a branch.
\<close>

definition documentedCycles :: "Result \<Rightarrow> bool" where
  "documentedCycles result =
     (ActualCycles result = Cycles (Defn result)
      \<or> (PageSensitive (Defn result) \<and> PageFault result
            \<and> ActualCycles result = Cycles (Defn result) + 1)
      \<or> (IsBranch (Defn result)
            \<and> (ActualCycles result = Cycles (Defn result) + 1
                 \<or> ActualCycles result = Cycles (Defn result) + 2)))"

text \<open>An absolute-addressed load (three bytes, four cycles, not page sensitive).\<close>

definition defnLDAabs :: Definition where
  "defnLDAabs = \<lparr> OpCode = 0xad, Mnemonic = ''LDA'', Bytes = 3, Cycles = 4,
     PageSensitive = False, IsBranch = False \<rparr>"

definition resultPageFault :: Result where
  "resultPageFault = \<lparr> Defn = defnLDAabs, ByteCount = 3, ActualCycles = 4,
     PageFault = True, CPUBug = [], Final = True \<rparr>"

definition resultPlain :: Result where
  "resultPlain = \<lparr> Defn = defnLDAabs, ByteCount = 3, ActualCycles = 4,
     PageFault = False, CPUBug = [], Final = True \<rparr>"

section \<open>Properties of the validity check\<close>

text \<open>
  C2 as stated fails: a finalised result with the right byte count and the base cycle
  count is still rejected when it reports a page fault for an instruction that is not
  page sensitive.
\<close>

theorem IsValid_page_fault_counterexample:
  "\<not> (\<forall>result. Final result \<longrightarrow>
        ((IsValid result = None) =
         (ByteCount result = Bytes (Defn result)
          \<and> (CPUBug result \<noteq> [] \<or> documentedCycles result))))"
proof
  assume claim: "\<forall>result. Final result \<longrightarrow>
        ((IsValid result = None) =
         (ByteCount result = Bytes (Defn result)
          \<and> (CPUBug result \<noteq> [] \<or> documentedCycles result)))"
  have "Final resultPageFault"
    by (simp add: resultPageFault_def)
  with claim have "(IsValid resultPageFault = None) =
         (ByteCount resultPageFault = Bytes (Defn resultPageFault)
          \<and> (CPUBug resultPageFault \<noteq> [] \<or> documentedCycles resultPageFault))"
    by blast
  then show False
    by (simp add: IsValid_def documentedCycles_def resultPageFault_def defnLDAabs_def)
qed

text \<open>
  The case the amended claim leaves aside: for a page-sensitive instruction that is not
  a branch and reports no page fault, the cycle count is not checked at all.
\<close>

lemma IsValid_page_sensitive_unchecked:
  assumes "Final result" and "PageSensitive (Defn result)" and "\<not> IsBranch (Defn result)"
    and "\<not> PageFault result" and "ByteCount result = Bytes (Defn result)"
  shows "IsValid result = None"
  using assms by (simp add: IsValid_def)

text \<open>A byte count that differs from the definition's is an error in every case.\<close>

lemma IsValid_byte_count:
  assumes "ByteCount result \<noteq> Bytes (Defn result)"
  shows "IsValid result \<noteq> None"
  using assms by (simp add: IsValid_def)

text \<open>
  C2, amended. For a finalised result, leaving aside the page-sensitive instruction that
  is neither a branch nor page-crossed nor bug-flagged: \<open>IsValid\<close> returns no error
  if and only if no page fault is reported for an instruction that is not page
  sensitive, the byte count equals the definition's, and, unless a CPU bug was flagged,
  the cycle count is in the documented set.
\<close>

theorem IsValid_amended:
  assumes "Final result"
    and "IsBranch (Defn result) \<or> PageFault result \<or> CPUBug result \<noteq> []
         \<or> \<not> PageSensitive (Defn result)"
  shows "(IsValid result = None) =
         ((PageSensitive (Defn result) \<or> \<not> PageFault result)
          \<and> ByteCount result = Bytes (Defn result)
          \<and> (CPUBug result \<noteq> [] \<or> documentedCycles result))"
  using assms by (auto simp add: IsValid_def documentedCycles_def)

theorem IsValid_amended_witness:
  "Final resultPlain
   \<and> (IsBranch (Defn resultPlain) \<or> PageFault resultPlain \<or> CPUBug resultPlain \<noteq> []
         \<or> \<not> PageSensitive (Defn resultPlain))
   \<and> IsValid resultPlain = None
   \<and> ByteCount resultPlain = Bytes (Defn resultPlain)
   \<and> documentedCycles resultPlain"
  using IsValid_amended [of resultPlain]
  by (simp add: resultPlain_def defnLDAabs_def documentedCycles_def)

section \<open>The basic television (BasicTelevision)\<close>

text \<open>
  The fields of the television specification that \<open>Signal\<close> and \<open>Reset\<close> read. The
  declaration of this version of the specification is outside the sources embedded here, so
  its values are not fixed here. Go's \<open>int\<close> is modelled by \<open>int\<close>: the counters of
  the television stay far from the limits of a 64-bit integer.
\<close>

record Specification =
  ClocksPerHblank :: int
  ClocksPerVisible :: int
  VsyncClocks :: int
  ScanlinesTotal :: int
  IdealTop :: int
  IdealBottom :: int

type_synonym ColorSignal = int

record SignalAttributes =
  VSync :: bool
  VBlank :: bool
  FrontPorch :: bool
  HSync :: bool
  CBurst :: bool
  Pixel :: ColorSignal
  AltPixel :: ColorSignal

text \<open>
  A renderer is an interface with four methods, each of which may return an error. The
  model keeps, for every renderer, the calls it has received (oldest first) and which
  calls it answers with an error.
\<close>

datatype RendererCall =
  NewFrame int
  | NewScanline int
  | SetPixel "32 word" "32 word" "8 word" "8 word" "8 word" bool
  | SetAltPixel "32 word" "32 word" "8 word" "8 word" "8 word" bool

record Renderer =
  received :: "RendererCall list"
  fails :: "RendererCall \<Rightarrow> bool"

text \<open>
  The errors \<open>Signal\<close> returns: a formatted error of kind \<open>errors.OutOfSpec\<close> (the
  constructor carries the horizontal position the message is formatted from), or the
  error of a renderer.
\<close>

datatype OutOfSpec =
  BadHSyncOn int
  | BadHSyncOff int
  | BadCBurstOn int
  | BadCBurstOff int
  | NoFrontPorch

datatype TVError =
  FormattedError OutOfSpec
  | RendererError RendererCall

record BasicTelevision =
  spec :: Specification
  outOfSpec :: bool
  endOfScreen :: bool
  horizPos :: int
  frameNum :: int
  scanline :: int
  prevSignal :: SignalAttributes
  vsyncCount :: int
  visibleTop :: int
  visibleBottom :: int
  pendingVisibleTop :: int
  pendingVisibleBottom :: int
  renderers :: "Renderer list"

definition zeroSignal :: SignalAttributes where
  "zeroSignal = \<lparr> VSync = False, VBlank = False, FrontPorch = False, HSync = False,
     CBurst = False, Pixel = 0, AltPixel = 0 \<rparr>"

definition AddRenderer :: "Renderer \<Rightarrow> BasicTelevision \<Rightarrow> BasicTelevision" where
  "AddRenderer r btv = btv\<lparr> renderers := renderers btv @ [r] \<rparr>"

definition Reset :: "BasicTelevision \<Rightarrow> BasicTelevision" where
  "Reset btv = btv\<lparr> horizPos := - ClocksPerHblank (spec btv),
     frameNum := 0, scanline := 0, vsyncCount := 0, prevSignal := zeroSignal,
     pendingVisibleTop := IdealTop (spec btv),
     pendingVisibleBottom := IdealBottom (spec btv) \<rparr>"

text \<open>
  \<open>NewBasicTelevision\<close> for a given specification: a zero-valued structure with the
  specification set, no renderers, then \<open>Reset\<close>.
\<close>

definition NewBasicTelevision :: "Specification \<Rightarrow> BasicTelevision" where
  "NewBasicTelevision sp =
     Reset \<lparr> spec = sp, outOfSpec = False, endOfScreen = False,
       horizPos = - ClocksPerHblank sp, frameNum = 0, scanline = 0,
       prevSignal = zeroSignal, vsyncCount = 0, visibleTop = 0, visibleBottom = 0,
       pendingVisibleTop = 0, pendingVisibleBottom = 0, renderers = [] \<rparr>"

text \<open>
  \<open>for f := range btv.renderers\<close>: the renderers are called in order, and the loop
  returns at the first error, leaving the later renderers uncalled.
\<close>

fun notify :: "RendererCall \<Rightarrow> Renderer list \<Rightarrow> TVError option \<times> Renderer list" where
  "notify c [] = (None, [])"
| "notify c (r # rs) =
     (if fails r c then (Some (RendererError c), r\<lparr> received := received r @ [c] \<rparr> # rs)
      else (case notify c rs of
              (err, rs') \<Rightarrow> (err, r\<lparr> received := received r @ [c] \<rparr> # rs')))"

definition notifyAll :: "RendererCall \<Rightarrow> BasicTelevision \<Rightarrow> TVError option \<times> BasicTelevision" where
  "notifyAll c btv =
     (case notify c (renderers btv) of (err, rs) \<Rightarrow> (err, btv\<lparr> renderers := rs \<rparr>))"

text \<open>A step that returned an error ends the call; otherwise the next step runs.\<close>

definition andThen ::
  "TVError option \<times> BasicTelevision \<Rightarrow> (BasicTelevision \<Rightarrow> TVError option \<times> BasicTelevision)
     \<Rightarrow> TVError option \<times> BasicTelevision" where
  "andThen r f = (case r of (Some e, btv) \<Rightarrow> (Some e, btv) | (None, btv) \<Rightarrow> f btv)"

text \<open>The checks of the HSYNC and CBURST edges at the head of \<open>Signal\<close>.\<close>

definition checkHSync :: "SignalAttributes \<Rightarrow> BasicTelevision \<Rightarrow> TVError option" where
  "checkHSync sig btv =
     (if HSync sig \<and> \<not> HSync (prevSignal btv)
      then (if horizPos btv < -52 \<or> horizPos btv > -49
            then Some (FormattedError (BadHSyncOn (horizPos btv))) else None)
      else if \<not> HSync sig \<and> HSync (prevSignal btv)
      then (if horizPos btv < -36 \<or> horizPos btv > -33
            then Some (FormattedError (BadHSyncOff (horizPos btv))) else None)
      else None)"

definition checkCBurst :: "SignalAttributes \<Rightarrow> BasicTelevision \<Rightarrow> TVError option" where
  "checkCBurst sig btv =
     (if CBurst sig \<and> \<not> CBurst (prevSignal btv)
      then (if horizPos btv < -28 \<or> horizPos btv > -17
            then Some (FormattedError (BadCBurstOn (horizPos btv))) else None)
      else if \<not> CBurst sig \<and> CBurst (prevSignal btv)
      then (if horizPos btv < -19 \<or> horizPos btv > -16
            then Some (FormattedError (BadCBurstOff (horizPos btv))) else None)
      else None)"

definition checkEdges :: "SignalAttributes \<Rightarrow> BasicTelevision \<Rightarrow> TVError option" where
  "checkEdges sig btv =
     (case checkHSync sig btv of Some e \<Rightarrow> Some e | None \<Rightarrow> checkCBurst sig btv)"

text \<open>The "simple implementation of vsync".\<close>

definition newFrame :: "BasicTelevision \<Rightarrow> TVError option \<times> BasicTelevision" where
  "newFrame btv =
     andThen
       (notifyAll (NewFrame (frameNum btv + 1))
          (btv\<lparr> outOfSpec := (vsyncCount btv \<noteq> VsyncClocks (spec btv)),
                endOfScreen := False,
                frameNum := frameNum btv + 1,
                scanline := 0,
                vsyncCount := 0,
                visibleTop := pendingVisibleTop btv,
                visibleBottom := pendingVisibleBottom btv \<rparr>))
       (\<lambda>b. (None, b\<lparr> pendingVisibleTop := IdealTop (spec b),
                        pendingVisibleBottom := IdealBottom (spec b) \<rparr>))"

definition vsyncStep :: "SignalAttributes \<Rightarrow> BasicTelevision \<Rightarrow> TVError option \<times> BasicTelevision" where
  "vsyncStep sig btv =
     (if VSync sig then (None, btv\<lparr> vsyncCount := vsyncCount btv + 1 \<rparr>)
      else if vsyncCount btv \<ge> VsyncClocks (spec btv) then newFrame btv
      else (None, btv))"

text \<open>Start of a new scanline on FRONTPORCH, one step to the right otherwise.\<close>

definition scanlineStep :: "SignalAttributes \<Rightarrow> BasicTelevision \<Rightarrow> TVError option \<times> BasicTelevision" where
  "scanlineStep sig btv =
     (if FrontPorch sig
      then andThen
             (notifyAll (NewScanline (scanline btv + 1))
                (btv\<lparr> horizPos := - ClocksPerHblank (spec btv),
                      scanline := scanline btv + 1 \<rparr>))
             (\<lambda>b. (None, if scanline b > ScanlinesTotal (spec b)
                          then b\<lparr> outOfSpec := True, endOfScreen := True \<rparr> else b))
      else (if horizPos btv + 1 > ClocksPerVisible (spec btv)
            then (Some (FormattedError NoFrontPorch), btv\<lparr> horizPos := horizPos btv + 1 \<rparr>)
            else (None, btv\<lparr> horizPos := horizPos btv + 1 \<rparr>)))"

text \<open>Pushing the limits of the visible screen outwards.\<close>

definition pushBottom :: "BasicTelevision \<Rightarrow> BasicTelevision" where
  "pushBottom btv =
     (if endOfScreen btv \<and> scanline btv > pendingVisibleBottom btv
      then (if scanline btv + 2 > ScanlinesTotal (spec btv)
            then btv\<lparr> pendingVisibleBottom := ScanlinesTotal (spec btv) \<rparr>
            else btv\<lparr> pendingVisibleBottom := scanline btv + 2 \<rparr>)
      else btv)"

definition pushTop :: "BasicTelevision \<Rightarrow> BasicTelevision" where
  "pushTop btv =
     (if scanline btv < pendingVisibleTop btv
      then (if scanline btv - 2 < 0
            then btv\<lparr> pendingVisibleTop := 0 \<rparr>
            else btv\<lparr> pendingVisibleTop := scanline btv - 2 \<rparr>)
      else btv)"

definition limitsStep :: "SignalAttributes \<Rightarrow> BasicTelevision \<Rightarrow> BasicTelevision" where
  "limitsStep sig btv = (if \<not> VBlank sig then pushTop (pushBottom btv) else btv)"

text \<open>
  Sending the pixel to the renderers. The coordinates are converted to \<open>int32\<close>;
  \<open>getColor\<close>, which decodes a colour signal with the palette of the specification, is
  outside the sources embedded here and is a parameter.
\<close>

definition pixelStep ::
  "(Specification \<Rightarrow> ColorSignal \<Rightarrow> 8 word \<times> 8 word \<times> 8 word)
     \<Rightarrow> SignalAttributes \<Rightarrow> BasicTelevision \<Rightarrow> TVError option \<times> BasicTelevision" where
  "pixelStep getColor sig btv =
     (if \<not> endOfScreen btv
      then (let x = (word_of_int (horizPos btv) + word_of_int (ClocksPerHblank (spec btv)) :: 32 word);
                y = (word_of_int (scanline btv) :: 32 word)
            in andThen
                 (case getColor (spec btv) (Pixel sig) of
                    (red, green, blue) \<Rightarrow> notifyAll (SetPixel x y red green blue (VBlank sig)) btv)
                 (\<lambda>b. case getColor (spec b) (AltPixel sig) of
                    (red, green, blue) \<Rightarrow> notifyAll (SetAltPixel x y red green blue (VBlank sig)) b))
      else (None, btv))"

definition Signal ::
  "(Specification \<Rightarrow> ColorSignal \<Rightarrow> 8 word \<times> 8 word \<times> 8 word)
     \<Rightarrow> SignalAttributes \<Rightarrow> BasicTelevision \<Rightarrow> TVError option \<times> BasicTelevision" where
  "Signal getColor sig btv =
     (case checkEdges sig btv of
        Some e \<Rightarrow> (Some e, btv)
      | None \<Rightarrow>
          andThen (andThen (vsyncStep sig btv) (scanlineStep sig))
            (\<lambda>b. pixelStep getColor sig ((limitsStep sig b)\<lparr> prevSignal := sig \<rparr>)))"

text \<open>
  A sequence of signals, sent one after the other until one of them returns an error.
\<close>

fun Signals ::
  "(Specification \<Rightarrow> ColorSignal \<Rightarrow> 8 word \<times> 8 word \<times> 8 word)
     \<Rightarrow> SignalAttributes list \<Rightarrow> BasicTelevision \<Rightarrow> TVError option \<times> BasicTelevision" where
  "Signals getColor [] btv = (None, btv)"
| "Signals getColor (sig # sigs) btv = andThen (Signal getColor sig btv) (Signals getColor sigs)"

section \<open>Properties of the television\<close>

text \<open>The new-frame notifications a renderer has received.\<close>

fun isNewFrame :: "RendererCall \<Rightarrow> bool" where
  "isNewFrame (NewFrame n) = True"
| "isNewFrame c = False"

definition newFrames :: "Renderer \<Rightarrow> RendererCall list" where
  "newFrames r = filter isNewFrame (received r)"

lemma andThen_None [simp]: "andThen (None, b) f = f b"
  by (simp add: andThen_def)

lemma andThen_Some [simp]: "andThen (Some e, b) f = (Some e, b)"
  by (simp add: andThen_def)

lemma andThen_preserves:
  assumes "\<And>b. g (snd (f b)) = g b"
  shows "g (snd (andThen r f)) = g (snd r)"
  using assms by (cases r) (simp add: andThen_def split: option.splits)

lemma notify_fails: "map fails (snd (notify c rs)) = map fails rs"
  by (induction rs) (auto split: prod.splits)

lemma notify_other:
  "\<not> isNewFrame c \<Longrightarrow> map newFrames (snd (notify c rs)) = map newFrames rs"
  by (induction rs) (auto simp add: newFrames_def split: prod.splits)

lemma notify_all_accept:
  "\<forall>r \<in> set rs. \<not> fails r c \<Longrightarrow>
     notify c rs = (None, map (\<lambda>r. r\<lparr> received := received r @ [c] \<rparr>) rs)"
  by (induction rs) simp_all

lemma fst_notifyAll: "fst (notifyAll c b) = fst (notify c (renderers b))"
  by (simp add: notifyAll_def split: prod.splits)

lemma snd_notifyAll: "snd (notifyAll c b) = b\<lparr> renderers := snd (notify c (renderers b)) \<rparr>"
  by (simp add: notifyAll_def split: prod.splits)

text \<open>What the steps after the vsync step leave alone.\<close>

definition frameView ::
  "BasicTelevision \<Rightarrow> int \<times> int \<times> Specification \<times> (RendererCall \<Rightarrow> bool) list \<times> RendererCall list list" where
  "frameView b =
     (frameNum b, vsyncCount b, spec b, map fails (renderers b), map newFrames (renderers b))"

lemma frameView_notifyAll:
  "\<not> isNewFrame c \<Longrightarrow> frameView (snd (notifyAll c b)) = frameView b"
  by (simp add: frameView_def snd_notifyAll notify_fails notify_other)

lemma frameView_scanlineStep: "frameView (snd (scanlineStep sig b)) = frameView b"
proof (cases "FrontPorch sig")
  case True
  let ?r = "notifyAll (NewScanline (scanline b + 1))
              (b\<lparr> horizPos := - ClocksPerHblank (spec b), scanline := scanline b + 1 \<rparr>)"
  let ?f = "\<lambda>b. (None :: TVError option, if scanline b > ScanlinesTotal (spec b)
                          then b\<lparr> outOfSpec := True, endOfScreen := True \<rparr> else b)"
  have "frameView (snd (andThen ?r ?f)) = frameView (snd ?r)"
    by (rule andThen_preserves) (simp add: frameView_def)
  also have "\<dots> = frameView b"
    by (simp add: frameView_notifyAll) (simp add: frameView_def)
  finally show ?thesis
    using True by (simp add: scanlineStep_def)
next
  case False
  then show ?thesis by (simp add: scanlineStep_def frameView_def)
qed

lemma frameView_limitsStep: "frameView (limitsStep sig b) = frameView b"
  by (simp add: limitsStep_def pushTop_def pushBottom_def frameView_def)

lemma frameView_pixelStep: "frameView (snd (pixelStep gc sig b)) = frameView b"
proof (cases "endOfScreen b")
  case True
  then show ?thesis by (simp add: pixelStep_def)
next
  case False
  let ?x = "(word_of_int (horizPos b) + word_of_int (ClocksPerHblank (spec b)) :: 32 word)"
  let ?y = "(word_of_int (scanline b) :: 32 word)"
  let ?r = "case gc (spec b) (Pixel sig) of
              (red, green, blue) \<Rightarrow> notifyAll (SetPixel ?x ?y red green blue (VBlank sig)) b"
  let ?f = "\<lambda>b. case gc (spec b) (AltPixel sig) of
              (red, green, blue) \<Rightarrow> notifyAll (SetAltPixel ?x ?y red green blue (VBlank sig)) b"
  have "frameView (snd (andThen ?r ?f)) = frameView (snd ?r)"
    by (rule andThen_preserves) (simp add: frameView_notifyAll split: prod.splits)
  also have "\<dots> = frameView b"
    by (simp add: frameView_notifyAll split: prod.splits)
  finally show ?thesis
    using False by (simp add: pixelStep_def Let_def)
qed

lemma frameView_afterScanline:
  "frameView (snd (pixelStep gc sig ((limitsStep sig b)\<lparr> prevSignal := sig \<rparr>))) = frameView b"
proof -
  have "frameView (snd (pixelStep gc sig ((limitsStep sig b)\<lparr> prevSignal := sig \<rparr>)))
      = frameView ((limitsStep sig b)\<lparr> prevSignal := sig \<rparr>)"
    by (rule frameView_pixelStep)
  also have "\<dots> = frameView (limitsStep sig b)"
    by (simp add: frameView_def)
  finally show ?thesis
    by (simp add: frameView_limitsStep)
qed

lemma Signal_rejected: "checkEdges sig btv = Some e \<Longrightarrow> Signal gc sig btv = (Some e, btv)"
  by (simp add: Signal_def)

lemma Signal_accepted:
  "checkEdges sig btv = None \<Longrightarrow>
     Signal gc sig btv =
       andThen (andThen (vsyncStep sig btv) (scanlineStep sig))
         (\<lambda>b. pixelStep gc sig ((limitsStep sig b)\<lparr> prevSignal := sig \<rparr>))"
  by (simp add: Signal_def)

lemma frameView_Signal:
  assumes "checkEdges sig btv = None"
  shows "frameView (snd (Signal gc sig btv)) = frameView (snd (vsyncStep sig btv))"
proof -
  let ?p = "\<lambda>b. pixelStep gc sig ((limitsStep sig b)\<lparr> prevSignal := sig \<rparr>)"
  have "frameView (snd (andThen (andThen (vsyncStep sig btv) (scanlineStep sig)) ?p))
      = frameView (snd (andThen (vsyncStep sig btv) (scanlineStep sig)))"
    by (rule andThen_preserves) (rule frameView_afterScanline)
  also have "\<dots> = frameView (snd (vsyncStep sig btv))"
    by (rule andThen_preserves) (rule frameView_scanlineStep)
  finally show ?thesis
    by (simp add: Signal_accepted [OF assms])
qed

lemma Signal_VSync:
  assumes "VSync sig" and "Signal gc sig btv = (None, btv')"
  shows "frameView btv' = frameView (btv\<lparr> vsyncCount := vsyncCount btv + 1 \<rparr>)"
proof -
  have edges: "checkEdges sig btv = None"
  proof (cases "checkEdges sig btv")
    case None
    then show ?thesis .
  next
    case (Some e)
    with assms(2) show ?thesis by (simp add: Signal_rejected)
  qed
  have "frameView btv' = frameView (snd (Signal gc sig btv))"
    by (simp add: assms(2))
  also have "\<dots> = frameView (snd (vsyncStep sig btv))"
    by (rule frameView_Signal [OF edges])
  finally show ?thesis
    using assms(1) by (simp add: vsyncStep_def)
qed

lemma Signals_pulse:
  assumes "\<forall>s \<in> set pulse. VSync s" and "Signals gc pulse btv = (None, btv')"
  shows "frameView btv' = frameView (btv\<lparr> vsyncCount := vsyncCount btv + int (length pulse) \<rparr>)"
  using assms
proof (induction pulse arbitrary: btv)
  case Nil
  then show ?case by (simp add: frameView_def)
next
  case (Cons s pulse)
  obtain err b1 where first: "Signal gc s btv = (err, b1)"
    by (cases "Signal gc s btv")
  with Cons.prems(2) have err: "err = None"
    by (cases err) simp_all
  with first Cons.prems(2) have rest: "Signals gc pulse b1 = (None, btv')"
    by simp
  from Cons.prems(1) have "VSync s" and all: "\<forall>s \<in> set pulse. VSync s"
    by simp_all
  from Signal_VSync [OF \<open>VSync s\<close>] first err
  have one: "frameView b1 = frameView (btv\<lparr> vsyncCount := vsyncCount btv + 1 \<rparr>)"
    by simp
  from Cons.IH [OF all rest]
  have "frameView btv' = frameView (b1\<lparr> vsyncCount := vsyncCount b1 + int (length pulse) \<rparr>)" .
  with one show ?case
    by (simp add: frameView_def)
qed

text \<open>The release of VSYNC.\<close>

lemma frameNum_newFrame: "frameNum (snd (newFrame b)) = frameNum b + 1"
proof -
  let ?b = "b\<lparr> outOfSpec := (vsyncCount b \<noteq> VsyncClocks (spec b)),
                endOfScreen := False, frameNum := frameNum b + 1, scanline := 0,
                vsyncCount := 0, visibleTop := pendingVisibleTop b,
                visibleBottom := pendingVisibleBottom b \<rparr>"
  let ?f = "\<lambda>b. (None :: TVError option, b\<lparr> pendingVisibleTop := IdealTop (spec b),
                        pendingVisibleBottom := IdealBottom (spec b) \<rparr>)"
  have "frameNum (snd (andThen (notifyAll (NewFrame (frameNum b + 1)) ?b) ?f))
      = frameNum (snd (notifyAll (NewFrame (frameNum b + 1)) ?b))"
    by (rule andThen_preserves) simp
  then show ?thesis
    by (simp add: newFrame_def snd_notifyAll)
qed

lemma newFrame_accepted:
  assumes "\<forall>r \<in> set (renderers b). \<not> fails r (NewFrame (frameNum b + 1))"
  shows "fst (newFrame b) = None
    \<and> scanline (snd (newFrame b)) = 0
    \<and> spec (snd (newFrame b)) = spec b
    \<and> map newFrames (renderers (snd (newFrame b)))
        = map (\<lambda>r. newFrames r @ [NewFrame (frameNum b + 1)]) (renderers b)"
  using notify_all_accept [OF assms]
  by (simp add: newFrame_def notifyAll_def newFrames_def)

definition sansRenderers :: "BasicTelevision \<Rightarrow> BasicTelevision" where
  "sansRenderers b = b\<lparr> renderers := [] \<rparr>"

lemma sansRenderers_notifyAll: "sansRenderers (snd (notifyAll c b)) = sansRenderers b"
  by (simp add: sansRenderers_def snd_notifyAll)

lemma sansRenderers_pixelStep: "sansRenderers (snd (pixelStep gc sig b)) = sansRenderers b"
proof (cases "endOfScreen b")
  case True
  then show ?thesis by (simp add: pixelStep_def)
next
  case False
  let ?x = "(word_of_int (horizPos b) + word_of_int (ClocksPerHblank (spec b)) :: 32 word)"
  let ?y = "(word_of_int (scanline b) :: 32 word)"
  let ?r = "case gc (spec b) (Pixel sig) of
              (red, green, blue) \<Rightarrow> notifyAll (SetPixel ?x ?y red green blue (VBlank sig)) b"
  let ?f = "\<lambda>b. case gc (spec b) (AltPixel sig) of
              (red, green, blue) \<Rightarrow> notifyAll (SetAltPixel ?x ?y red green blue (VBlank sig)) b"
  have "sansRenderers (snd (andThen ?r ?f)) = sansRenderers (snd ?r)"
    by (rule andThen_preserves) (simp add: sansRenderers_notifyAll split: prod.splits)
  also have "\<dots> = sansRenderers b"
    by (simp add: sansRenderers_notifyAll split: prod.splits)
  finally show ?thesis
    using False by (simp add: pixelStep_def Let_def)
qed

definition position :: "BasicTelevision \<Rightarrow> int \<times> int" where
  "position b = (horizPos b, scanline b)"

lemma position_sansRenderers: "position (sansRenderers b) = position b"
  by (simp add: position_def sansRenderers_def)

lemma position_afterScanline:
  "position (snd (pixelStep gc sig ((limitsStep sig b)\<lparr> prevSignal := sig \<rparr>))) = position b"
proof -
  let ?b = "(limitsStep sig b)\<lparr> prevSignal := sig \<rparr>"
  have "position (snd (pixelStep gc sig ?b)) = position (sansRenderers (snd (pixelStep gc sig ?b)))"
    by (simp add: position_sansRenderers)
  also have "\<dots> = position ?b"
    by (simp add: sansRenderers_pixelStep position_sansRenderers)
  also have "\<dots> = position b"
    by (simp add: position_def limitsStep_def pushTop_def pushBottom_def)
  finally show ?thesis .
qed

lemma position_scanlineStep:
  "position (snd (scanlineStep sig b)) =
     (if FrontPorch sig then (- ClocksPerHblank (spec b), scanline b + 1)
      else (horizPos b + 1, scanline b))"
proof (cases "FrontPorch sig")
  case True
  let ?r = "notifyAll (NewScanline (scanline b + 1))
              (b\<lparr> horizPos := - ClocksPerHblank (spec b), scanline := scanline b + 1 \<rparr>)"
  let ?f = "\<lambda>b. (None :: TVError option, if scanline b > ScanlinesTotal (spec b)
                          then b\<lparr> outOfSpec := True, endOfScreen := True \<rparr> else b)"
  have "position (snd (andThen ?r ?f)) = position (snd ?r)"
    by (rule andThen_preserves) (simp add: position_def)
  also have "\<dots> = (- ClocksPerHblank (spec b), scanline b + 1)"
    by (simp add: snd_notifyAll position_def)
  finally show ?thesis
    using True by (simp add: scanlineStep_def)
next
  case False
  then show ?thesis by (simp add: scanlineStep_def position_def)
qed

lemma scanlineStep_NoFrontPorch:
  "\<not> FrontPorch sig \<Longrightarrow> horizPos b + 1 > ClocksPerVisible (spec b) \<Longrightarrow>
     fst (scanlineStep sig b) = Some (FormattedError NoFrontPorch)"
  by (simp add: scanlineStep_def)

lemma Signal_position:
  assumes "checkEdges sig btv = None" and "vsyncStep sig btv = (None, b1)"
  shows "position (snd (Signal gc sig btv)) = position (snd (scanlineStep sig b1))"
proof -
  let ?p = "\<lambda>b. pixelStep gc sig ((limitsStep sig b)\<lparr> prevSignal := sig \<rparr>)"
  have "position (snd (andThen (scanlineStep sig b1) ?p)) = position (snd (scanlineStep sig b1))"
    by (rule andThen_preserves) (rule position_afterScanline)
  then show ?thesis
    by (simp add: Signal_accepted [OF assms(1)] assms(2))
qed

lemma Signal_NoFrontPorch:
  assumes "checkEdges sig btv = None" and "vsyncStep sig btv = (None, b1)"
    and "fst (scanlineStep sig b1) = Some e"
  shows "fst (Signal gc sig btv) = Some e"
proof -
  from assms(3) obtain b2 where "scanlineStep sig b1 = (Some e, b2)"
    by (cases "scanlineStep sig b1") simp
  then show ?thesis
    by (simp add: Signal_accepted [OF assms(1)] assms(2))
qed

lemma Signal_vsync_error:
  assumes "checkEdges sig btv = None" and "fst (vsyncStep sig btv) = Some e"
  shows "Signal gc sig btv = vsyncStep sig btv"
proof -
  from assms(2) obtain b1 where "vsyncStep sig btv = (Some e, b1)"
    by (cases "vsyncStep sig btv") simp
  then show ?thesis
    by (simp add: Signal_accepted [OF assms(1)])
qed

lemma newFrame_horizPos:
  "horizPos (snd (newFrame b)) = horizPos b \<and> spec (snd (newFrame b)) = spec b"
proof -
  let ?b = "b\<lparr> outOfSpec := (vsyncCount b \<noteq> VsyncClocks (spec b)),
                endOfScreen := False, frameNum := frameNum b + 1, scanline := 0,
                vsyncCount := 0, visibleTop := pendingVisibleTop b,
                visibleBottom := pendingVisibleBottom b \<rparr>"
  let ?f = "\<lambda>b. (None :: TVError option, b\<lparr> pendingVisibleTop := IdealTop (spec b),
                        pendingVisibleBottom := IdealBottom (spec b) \<rparr>)"
  let ?g = "\<lambda>b. (horizPos b, spec b)"
  have "?g (snd (andThen (notifyAll (NewFrame (frameNum b + 1)) ?b) ?f))
      = ?g (snd (notifyAll (NewFrame (frameNum b + 1)) ?b))"
    by (rule andThen_preserves) simp
  then show ?thesis
    by (simp add: newFrame_def snd_notifyAll)
qed

lemma vsyncStep_horizPos:
  "horizPos (snd (vsyncStep sig b)) = horizPos b \<and> spec (snd (vsyncStep sig b)) = spec b"
  by (simp add: vsyncStep_def newFrame_horizPos)

definition ntsc :: Specification where
  "ntsc = \<lparr> ClocksPerHblank = 68, ClocksPerVisible = 160, VsyncClocks = 3,
     ScanlinesTotal = 262, IdealTop = 40, IdealBottom = 232 \<rparr>"

definition noColor :: "Specification \<Rightarrow> ColorSignal \<Rightarrow> 8 word \<times> 8 word \<times> 8 word" where
  "noColor sp col = (0, 0, 0)"

definition acceptingRenderer :: Renderer where
  "acceptingRenderer = \<lparr> received = [], fails = (\<lambda>c. False) \<rparr>"

definition frameRefusingRenderer :: Renderer where
  "frameRefusingRenderer = \<lparr> received = [], fails = isNewFrame \<rparr>"

definition vsyncOn :: SignalAttributes where
  "vsyncOn = zeroSignal\<lparr> VSync := True \<rparr>"

definition tvOneRenderer :: BasicTelevision where
  "tvOneRenderer = AddRenderer acceptingRenderer (NewBasicTelevision ntsc)"

definition tvTwoRenderers :: BasicTelevision where
  "tvTwoRenderers =
     AddRenderer acceptingRenderer (AddRenderer frameRefusingRenderer (NewBasicTelevision ntsc))"

lemmas tv_examples =
  ntsc_def noColor_def acceptingRenderer_def frameRefusingRenderer_def vsyncOn_def
  tvOneRenderer_def tvTwoRenderers_def zeroSignal_def AddRenderer_def NewBasicTelevision_def
  Reset_def

lemmas tv_steps =
  Signal_def checkEdges_def checkHSync_def checkCBurst_def vsyncStep_def newFrame_def
  scanlineStep_def limitsStep_def pushTop_def pushBottom_def pixelStep_def notifyAll_def
  andThen_def Let_def newFrames_def

lemma all_accept_fails:
  "(\<forall>r \<in> set rs. \<not> fails r c) = (\<forall>f \<in> set (map fails rs). \<not> f c)"
  by simp

lemma map_snoc_newFrames:
  "map (\<lambda>r. newFrames r @ [c]) rs = map (\<lambda>xs. xs @ [c]) (map newFrames rs)"
  by simp

text \<open>
  C1 as stated fails. With a VSYNC of three clocks and a release that carries FRONTPORCH,
  no call returns an error and the scanline is 1 after the release. With two renderers of
  which the first answers \<open>NewFrame\<close> with an error, the notification loop returns at
  once and the second renderer receives no \<open>NewFrame\<close> at all.
\<close>

theorem vsync_release_counterexample:
  "fst (Signals noColor [vsyncOn, vsyncOn, vsyncOn, zeroSignal\<lparr> FrontPorch := True \<rparr>]
          tvOneRenderer) = None
   \<and> scanline (snd (Signals noColor [vsyncOn, vsyncOn, vsyncOn, zeroSignal\<lparr> FrontPorch := True \<rparr>]
          tvOneRenderer)) = 1
   \<and> map newFrames (renderers (snd (Signals noColor [vsyncOn, vsyncOn, vsyncOn, zeroSignal]
          tvTwoRenderers))) = [[NewFrame 1], []]"
  by (simp add: tv_examples tv_steps)

text \<open>
  The notification loop, renderer by renderer: a renderer is called if no renderer
  before it has answered with an error, and the error of the first renderer that fails
  is the result.
\<close>

lemma notify_length: "length (snd (notify c rs)) = length rs"
  by (induction rs) (auto split: prod.splits)

lemma notify_nth:
  "i < length rs \<Longrightarrow>
     snd (notify c rs) ! i =
       (if \<exists>j < i. fails (rs ! j) c then rs ! i
        else (rs ! i)\<lparr> received := received (rs ! i) @ [c] \<rparr>)"
proof (induction rs arbitrary: i)
  case Nil
  then show ?case by simp
next
  case (Cons r rs)
  show ?case
  proof (cases i)
    case 0
    then show ?thesis by (simp split: prod.splits)
  next
    case (Suc k)
    with Cons.prems have k: "k < length rs"
      by simp
    have ex: "(\<exists>j < Suc k. fails ((r # rs) ! j) c) = (fails r c \<or> (\<exists>j < k. fails (rs ! j) c))"
      by (auto simp add: less_Suc_eq_0_disj)
    show ?thesis
    proof (cases "fails r c")
      case True
      then show ?thesis
        using Suc ex by simp
    next
      case False
      obtain e rs' where nr: "notify c rs = (e, rs')"
        by (cases "notify c rs")
      with Cons.IH [OF k] have "rs' ! k =
          (if \<exists>j < k. fails (rs ! j) c then rs ! k
           else (rs ! k)\<lparr> received := received (rs ! k) @ [c] \<rparr>)"
        by simp
      with False Suc ex nr show ?thesis
        by simp
    qed
  qed
qed

lemma notify_error:
  "fst (notify c rs) = (if \<exists>j < length rs. fails (rs ! j) c then Some (RendererError c) else None)"
proof (induction rs)
  case Nil
  then show ?case by simp
next
  case (Cons r rs)
  have "(\<exists>j < length (r # rs). fails ((r # rs) ! j) c)
      = (fails r c \<or> (\<exists>j < length rs. fails (rs ! j) c))"
    by (auto simp add: less_Suc_eq_0_disj)
  moreover obtain e rs' where nr: "notify c rs = (e, rs')"
    by (cases "notify c rs")
  moreover from Cons nr have "e = (if \<exists>j < length rs. fails (rs ! j) c
      then Some (RendererError c) else None)"
    by simp
  ultimately show ?case
    by simp
qed

lemma newFrame_notified:
  "renderers (snd (newFrame b)) = snd (notify (NewFrame (frameNum b + 1)) (renderers b))
   \<and> fst (newFrame b) = fst (notify (NewFrame (frameNum b + 1)) (renderers b))
   \<and> (fst (newFrame b) \<noteq> None \<longrightarrow> scanline (snd (newFrame b)) = 0)"
  by (cases "notify (NewFrame (frameNum b + 1)) (renderers b)")
    (auto simp add: newFrame_def notifyAll_def andThen_def split: option.splits)

lemma map_eq_nth:
  assumes "map f xs = map f ys" and "i < length ys"
  shows "f (xs ! i) = f (ys ! i)"
proof -
  from assms(1) have len: "length xs = length ys"
    by (rule map_eq_imp_length_eq)
  with assms(2) have "f (xs ! i) = map f xs ! i"
    by simp
  also have "\<dots> = map f ys ! i"
    by (simp only: assms(1))
  also have "\<dots> = f (ys ! i)"
    using assms(2) by simp
  finally show ?thesis .
qed

lemma newFrames_notify_nth:
  assumes "i < length rs"
  shows "newFrames (snd (notify (NewFrame n) rs) ! i) =
       (if \<exists>j < i. fails (rs ! j) (NewFrame n) then newFrames (rs ! i)
        else newFrames (rs ! i) @ [NewFrame n])"
  by (simp add: notify_nth [OF assms] newFrames_def)

text \<open>
  When no renderer answers the \<open>NewFrame\<close> notification with an error, all of them
  receive it.
\<close>

lemma release_all_accept:
  assumes pulse: "\<forall>s \<in> set pulse. VSync s"
    and held: "VsyncClocks (spec btv) \<le> int (length pulse)"
    and count: "0 \<le> vsyncCount btv"
    and sent: "Signals gc pulse btv = (None, btv1)"
    and release: "\<not> VSync rel"
    and edges: "checkEdges rel btv1 = None"
  shows "frameNum (snd (Signal gc rel btv1)) = frameNum btv + 1
    \<and> ((\<forall>r \<in> set (renderers btv). \<not> fails r (NewFrame (frameNum btv + 1))) \<longrightarrow>
         scanline (snd (Signal gc rel btv1)) = (if FrontPorch rel then 1 else 0)
         \<and> map newFrames (renderers (snd (Signal gc rel btv1)))
             = map (\<lambda>r. newFrames r @ [NewFrame (frameNum btv + 1)]) (renderers btv))"
proof -
  from Signals_pulse [OF pulse sent]
  have view: "frameView btv1 = frameView (btv\<lparr> vsyncCount := vsyncCount btv + int (length pulse) \<rparr>)" .
  then have fn: "frameNum btv1 = frameNum btv" and sp: "spec btv1 = spec btv"
    and vc: "vsyncCount btv1 = vsyncCount btv + int (length pulse)"
    and fl: "map fails (renderers btv1) = map fails (renderers btv)"
    and nf: "map newFrames (renderers btv1) = map newFrames (renderers btv)"
    by (simp_all add: frameView_def)
  from vc held count sp have "VsyncClocks (spec btv1) \<le> vsyncCount btv1"
    by simp
  with release have step: "vsyncStep rel btv1 = newFrame btv1"
    by (simp add: vsyncStep_def)
  have after: "frameView (snd (Signal gc rel btv1)) = frameView (snd (newFrame btv1))"
    using frameView_Signal [OF edges] step by simp
  then have "frameNum (snd (Signal gc rel btv1)) = frameNum (snd (newFrame btv1))"
    by (simp add: frameView_def)
  then have frame: "frameNum (snd (Signal gc rel btv1)) = frameNum btv + 1"
    by (simp add: frameNum_newFrame fn)
  have notified: "scanline (snd (Signal gc rel btv1)) = (if FrontPorch rel then 1 else 0)
         \<and> map newFrames (renderers (snd (Signal gc rel btv1)))
             = map (\<lambda>r. newFrames r @ [NewFrame (frameNum btv + 1)]) (renderers btv)"
    if accept: "\<forall>r \<in> set (renderers btv). \<not> fails r (NewFrame (frameNum btv + 1))"
  proof -
    from accept have "\<forall>f \<in> set (map fails (renderers btv)). \<not> f (NewFrame (frameNum btv + 1))"
      by simp
    then have "\<forall>f \<in> set (map fails (renderers btv1)). \<not> f (NewFrame (frameNum btv1 + 1))"
      by (simp only: fl fn)
    then have accept1: "\<forall>r \<in> set (renderers btv1). \<not> fails r (NewFrame (frameNum btv1 + 1))"
      by simp
    note ok = newFrame_accepted [OF accept1]
    obtain b2 where b2: "newFrame btv1 = (None, b2)"
      using ok by (cases "newFrame btv1") simp
    with ok have sl: "scanline b2 = 0"
      and got: "map newFrames (renderers b2)
                  = map (\<lambda>r. newFrames r @ [NewFrame (frameNum btv1 + 1)]) (renderers btv1)"
      by simp_all
    from Signal_position [OF edges, of b2 gc] step b2
    have "position (snd (Signal gc rel btv1)) = position (snd (scanlineStep rel b2))"
      by simp
    then have "position (snd (Signal gc rel btv1)) =
        (if FrontPorch rel then (- ClocksPerHblank (spec b2), scanline b2 + 1)
         else (horizPos b2 + 1, scanline b2))"
      by (simp only: position_scanlineStep)
    then have "scanline (snd (Signal gc rel btv1)) = (if FrontPorch rel then 1 else 0)"
      using sl by (simp add: position_def split: if_splits)
    moreover
    from after b2 have "map newFrames (renderers (snd (Signal gc rel btv1)))
        = map newFrames (renderers b2)"
      by (simp add: frameView_def)
    then have "map newFrames (renderers (snd (Signal gc rel btv1)))
        = map (\<lambda>xs. xs @ [NewFrame (frameNum btv + 1)]) (map newFrames (renderers btv))"
      by (simp only: got fn map_snoc_newFrames nf)
    then have "map newFrames (renderers (snd (Signal gc rel btv1)))
        = map (\<lambda>r. newFrames r @ [NewFrame (frameNum btv + 1)]) (renderers btv)"
      by simp
    ultimately show ?thesis
      by simp
  qed
  from frame notified show ?thesis
    by blast
qed

text \<open>
  C1, amended. Let VSYNC be held for at least \<open>VsyncClocks\<close> signals, none of which
  returns an error, and let it then be released by a signal that passes the HSYNC and
  CBURST checks. On the release the frame number advances by exactly one. The renderers
  are notified of the new frame in the order of their registration, up to and including
  the first that answers with an error: a renderer receives exactly one \<open>NewFrame\<close>,
  carrying the new frame number, over the whole sequence if no renderer registered
  before it answers with an error, and none otherwise. If a renderer answers with an
  error, the call returns that error with the scanline at zero. If none does, every
  registered renderer has received exactly one \<open>NewFrame\<close>, and the scanline, reset to
  zero, is zero after the release, or one when the releasing signal carries FRONTPORCH.
\<close>

theorem vsync_release_new_frame:
  assumes pulse: "\<forall>s \<in> set pulse. VSync s"
    and held: "VsyncClocks (spec btv) \<le> int (length pulse)"
    and count: "0 \<le> vsyncCount btv"
    and sent: "Signals gc pulse btv = (None, btv1)"
    and release: "\<not> VSync rel"
    and edges: "checkEdges rel btv1 = None"
  shows "frameNum (snd (Signal gc rel btv1)) = frameNum btv + 1
    \<and> length (renderers (snd (Signal gc rel btv1))) = length (renderers btv)
    \<and> (\<forall>i < length (renderers btv).
          newFrames (renderers (snd (Signal gc rel btv1)) ! i) =
            (if \<exists>j < i. fails (renderers btv ! j) (NewFrame (frameNum btv + 1))
             then newFrames (renderers btv ! i)
             else newFrames (renderers btv ! i) @ [NewFrame (frameNum btv + 1)]))
    \<and> ((\<exists>j < length (renderers btv). fails (renderers btv ! j) (NewFrame (frameNum btv + 1))) \<longrightarrow>
          fst (Signal gc rel btv1) = Some (RendererError (NewFrame (frameNum btv + 1)))
          \<and> scanline (snd (Signal gc rel btv1)) = 0)
    \<and> ((\<forall>r \<in> set (renderers btv). \<not> fails r (NewFrame (frameNum btv + 1))) \<longrightarrow>
         scanline (snd (Signal gc rel btv1)) = (if FrontPorch rel then 1 else 0)
         \<and> map newFrames (renderers (snd (Signal gc rel btv1)))
             = map (\<lambda>r. newFrames r @ [NewFrame (frameNum btv + 1)]) (renderers btv))"
proof -
  let ?c = "NewFrame (frameNum btv + 1)"
  let ?final = "snd (Signal gc rel btv1)"
  note accepted = release_all_accept [OF pulse held count sent release edges]
  from Signals_pulse [OF pulse sent]
  have view: "frameView btv1 = frameView (btv\<lparr> vsyncCount := vsyncCount btv + int (length pulse) \<rparr>)" .
  then have fn: "frameNum btv1 = frameNum btv" and sp: "spec btv1 = spec btv"
    and vc: "vsyncCount btv1 = vsyncCount btv + int (length pulse)"
    and fl: "map fails (renderers btv1) = map fails (renderers btv)"
    and nf: "map newFrames (renderers btv1) = map newFrames (renderers btv)"
    by (simp_all add: frameView_def)
  from fl have len1: "length (renderers btv1) = length (renderers btv)"
    by (rule map_eq_imp_length_eq)
  from vc held count sp have "VsyncClocks (spec btv1) \<le> vsyncCount btv1"
    by simp
  with release have step: "vsyncStep rel btv1 = newFrame btv1"
    by (simp add: vsyncStep_def)
  have "frameView ?final = frameView (snd (newFrame btv1))"
    using frameView_Signal [OF edges] step by simp
  then have "map newFrames (renderers ?final) = map newFrames (renderers (snd (newFrame btv1)))"
    by (simp add: frameView_def)
  then have after: "map newFrames (renderers ?final)
      = map newFrames (snd (notify ?c (renderers btv1)))"
    by (simp add: newFrame_notified fn)
  then have "length (renderers ?final) = length (snd (notify ?c (renderers btv1)))"
    by (rule map_eq_imp_length_eq)
  then have len: "length (renderers ?final) = length (renderers btv)"
    by (simp add: notify_length len1)
  have each: "newFrames (renderers ?final ! i) =
            (if \<exists>j < i. fails (renderers btv ! j) ?c
             then newFrames (renderers btv ! i)
             else newFrames (renderers btv ! i) @ [?c])"
    if i: "i < length (renderers btv)" for i
  proof -
    from i have i1: "i < length (renderers btv1)"
      by (simp add: len1)
    then have "i < length (snd (notify ?c (renderers btv1)))"
      by (simp add: notify_length)
    from map_eq_nth [OF after this]
    have "newFrames (renderers ?final ! i) = newFrames (snd (notify ?c (renderers btv1)) ! i)" .
    also have "\<dots> = (if \<exists>j < i. fails (renderers btv1 ! j) ?c then newFrames (renderers btv1 ! i)
        else newFrames (renderers btv1 ! i) @ [?c])"
      by (rule newFrames_notify_nth [OF i1])
    also have "newFrames (renderers btv1 ! i) = newFrames (renderers btv ! i)"
      by (rule map_eq_nth [OF nf i])
    also have "(\<exists>j < i. fails (renderers btv1 ! j) ?c) = (\<exists>j < i. fails (renderers btv ! j) ?c)"
    proof -
      have "fails (renderers btv1 ! j) = fails (renderers btv ! j)" if "j < i" for j
        using that i by (intro map_eq_nth [OF fl]) simp
      then show ?thesis
        by auto
    qed
    finally show ?thesis .
  qed
  have failed: "fst (Signal gc rel btv1) = Some (RendererError ?c) \<and> scanline ?final = 0"
    if "\<exists>j < length (renderers btv). fails (renderers btv ! j) ?c"
  proof -
    from that obtain j where j: "j < length (renderers btv)" and "fails (renderers btv ! j) ?c"
      by blast
    moreover have "fails (renderers btv1 ! j) = fails (renderers btv ! j)"
      by (rule map_eq_nth [OF fl j])
    ultimately have "\<exists>j < length (renderers btv1). fails (renderers btv1 ! j) ?c"
      using len1 by auto
    then have err: "fst (newFrame btv1) = Some (RendererError ?c)"
      by (simp add: newFrame_notified fn notify_error)
    then have "fst (vsyncStep rel btv1) = Some (RendererError ?c)"
      by (simp add: step)
    from Signal_vsync_error [OF edges this] have "Signal gc rel btv1 = newFrame btv1"
      by (simp add: step)
    with err newFrame_notified [of btv1] show ?thesis
      by simp
  qed
  from accepted len each failed show ?thesis
    by blast
qed

theorem vsync_release_new_frame_witness:
  "VSync vsyncOn \<and> \<not> VSync zeroSignal
   \<and> VsyncClocks (spec tvOneRenderer) \<le> int (length [vsyncOn, vsyncOn, vsyncOn])
   \<and> 0 \<le> vsyncCount tvOneRenderer
   \<and> fst (Signals noColor [vsyncOn, vsyncOn, vsyncOn] tvOneRenderer) = None
   \<and> checkEdges zeroSignal (snd (Signals noColor [vsyncOn, vsyncOn, vsyncOn] tvOneRenderer)) = None
   \<and> \<not> fails acceptingRenderer (NewFrame 1)
   \<and> frameNum (snd (Signal noColor zeroSignal
         (snd (Signals noColor [vsyncOn, vsyncOn, vsyncOn] tvOneRenderer)))) = 1
   \<and> scanline (snd (Signal noColor zeroSignal
         (snd (Signals noColor [vsyncOn, vsyncOn, vsyncOn] tvOneRenderer)))) = 0
   \<and> map newFrames (renderers (snd (Signal noColor zeroSignal
         (snd (Signals noColor [vsyncOn, vsyncOn, vsyncOn] tvOneRenderer))))) = [[NewFrame 1]]
   \<and> VsyncClocks (spec tvTwoRenderers) \<le> int (length [vsyncOn, vsyncOn, vsyncOn])
   \<and> 0 \<le> vsyncCount tvTwoRenderers
   \<and> fst (Signals noColor [vsyncOn, vsyncOn, vsyncOn] tvTwoRenderers) = None
   \<and> checkEdges zeroSignal (snd (Signals noColor [vsyncOn, vsyncOn, vsyncOn] tvTwoRenderers)) = None
   \<and> fails (renderers tvTwoRenderers ! 0) (NewFrame 1)
   \<and> fst (Signal noColor zeroSignal
         (snd (Signals noColor [vsyncOn, vsyncOn, vsyncOn] tvTwoRenderers)))
       = Some (RendererError (NewFrame 1))
   \<and> scanline (snd (Signal noColor zeroSignal
         (snd (Signals noColor [vsyncOn, vsyncOn, vsyncOn] tvTwoRenderers)))) = 0
   \<and> newFrames (renderers (snd (Signal noColor zeroSignal
         (snd (Signals noColor [vsyncOn, vsyncOn, vsyncOn] tvTwoRenderers)))) ! 0) = [NewFrame 1]
   \<and> newFrames (renderers (snd (Signal noColor zeroSignal
         (snd (Signals noColor [vsyncOn, vsyncOn, vsyncOn] tvTwoRenderers)))) ! 1) = []"
proof -
  let ?pulse = "[vsyncOn, vsyncOn, vsyncOn]"
  let ?b1 = "snd (Signals noColor ?pulse tvOneRenderer)"
  let ?b2 = "snd (Signals noColor ?pulse tvTwoRenderers)"
  have h1: "\<forall>s \<in> set ?pulse. VSync s"
    by (simp add: vsyncOn_def zeroSignal_def)
  have h5: "\<not> VSync zeroSignal"
    by (simp add: zeroSignal_def)
  have one: "VsyncClocks (spec tvOneRenderer) \<le> int (length ?pulse)"
    "0 \<le> vsyncCount tvOneRenderer"
    "Signals noColor ?pulse tvOneRenderer = (None, ?b1)"
    "checkEdges zeroSignal ?b1 = None"
    by (simp_all add: tv_examples tv_steps)
  have two: "VsyncClocks (spec tvTwoRenderers) \<le> int (length ?pulse)"
    "0 \<le> vsyncCount tvTwoRenderers"
    "Signals noColor ?pulse tvTwoRenderers = (None, ?b2)"
    "checkEdges zeroSignal ?b2 = None"
    by (simp_all add: tv_examples tv_steps)
  have start: "frameNum tvOneRenderer = 0" "\<not> FrontPorch zeroSignal"
    "renderers tvOneRenderer = [acceptingRenderer]"
    "\<not> fails acceptingRenderer (NewFrame 1)" "newFrames acceptingRenderer = []"
    "frameNum tvTwoRenderers = 0"
    "renderers tvTwoRenderers = [frameRefusingRenderer, acceptingRenderer]"
    "fails frameRefusingRenderer (NewFrame 1)" "newFrames frameRefusingRenderer = []"
    by (simp_all add: tv_examples newFrames_def)
  note first = vsync_release_new_frame [OF h1 one(1,2,3) h5 one(4)]
  note second = vsync_release_new_frame [OF h1 two(1,2,3) h5 two(4)]
  from first start have r1: "frameNum (snd (Signal noColor zeroSignal ?b1)) = 1"
    "scanline (snd (Signal noColor zeroSignal ?b1)) = 0"
    "map newFrames (renderers (snd (Signal noColor zeroSignal ?b1))) = [[NewFrame 1]]"
    by simp_all
  have "\<exists>j < length (renderers tvTwoRenderers).
      fails (renderers tvTwoRenderers ! j) (NewFrame (frameNum tvTwoRenderers + 1))"
    by (rule exI [of _ 0]) (simp add: start)
  with second have r2: "fst (Signal noColor zeroSignal ?b2)
      = Some (RendererError (NewFrame (frameNum tvTwoRenderers + 1)))"
    "scanline (snd (Signal noColor zeroSignal ?b2)) = 0"
    by blast+
  from second have each: "\<forall>i < length (renderers tvTwoRenderers).
          newFrames (renderers (snd (Signal noColor zeroSignal ?b2)) ! i) =
            (if \<exists>j < i. fails (renderers tvTwoRenderers ! j) (NewFrame (frameNum tvTwoRenderers + 1))
             then newFrames (renderers tvTwoRenderers ! i)
             else newFrames (renderers tvTwoRenderers ! i)
                    @ [NewFrame (frameNum tvTwoRenderers + 1)])"
    by blast
  from each have r3: "newFrames (renderers (snd (Signal noColor zeroSignal ?b2)) ! 0) = [NewFrame 1]"
    by (simp add: start)
  have "\<exists>j < (1 :: nat). fails (renderers tvTwoRenderers ! j) (NewFrame (frameNum tvTwoRenderers + 1))"
    by (rule exI [of _ 0]) (simp add: start)
  with each have r4: "newFrames (renderers (snd (Signal noColor zeroSignal ?b2)) ! 1) = []"
    by (simp add: start)
  have h8: "VSync vsyncOn"
    "fst (Signals noColor ?pulse tvOneRenderer) = None"
    "fst (Signals noColor ?pulse tvTwoRenderers) = None"
    "fails (renderers tvTwoRenderers ! 0) (NewFrame 1)"
    by (simp_all add: tv_examples tv_steps)
  from r2(1) start have r2': "fst (Signal noColor zeroSignal ?b2) = Some (RendererError (NewFrame 1))"
    by simp
  from h5 h8 one(1,2,4) two(1,2,4) start(4) r1 r2' r2(2) r3 r4 show ?thesis
    by blast
qed

text \<open>
  An HSYNC edge outside its window ends the call: the error is returned and the
  television is left exactly as it was.
\<close>

lemma bad_HSync_on_rejected:
  assumes "HSync sig" and "\<not> HSync (prevSignal btv)"
    and "horizPos btv < -52 \<or> horizPos btv > -49"
  shows "Signal gc sig btv = (Some (FormattedError (BadHSyncOn (horizPos btv))), btv)"
proof -
  from assms have "checkEdges sig btv = Some (FormattedError (BadHSyncOn (horizPos btv)))"
    by (simp add: checkEdges_def checkHSync_def)
  then show ?thesis
    by (rule Signal_rejected)
qed

lemma bad_HSync_off_rejected:
  assumes "\<not> HSync sig" and "HSync (prevSignal btv)"
    and "horizPos btv < -36 \<or> horizPos btv > -33"
  shows "Signal gc sig btv = (Some (FormattedError (BadHSyncOff (horizPos btv))), btv)"
proof -
  from assms have "checkEdges sig btv = Some (FormattedError (BadHSyncOff (horizPos btv)))"
    by (simp add: checkEdges_def checkHSync_def)
  then show ?thesis
    by (rule Signal_rejected)
qed


text \<open>
  How a call moves the horizontal position: not at all when it returns before the
  scanline step, to \<open>-ClocksPerHblank\<close> on FRONTPORCH, one to the right otherwise; the
  error for a missing FRONTPORCH comes when the incremented position is above
  \<open>ClocksPerVisible\<close>.
\<close>

lemma Signal_horizPos:
  "(checkEdges sig btv \<noteq> None \<longrightarrow> horizPos (snd (Signal gc sig btv)) = horizPos btv)
   \<and> (checkEdges sig btv = None \<and> fst (vsyncStep sig btv) \<noteq> None \<longrightarrow>
        horizPos (snd (Signal gc sig btv)) = horizPos btv)
   \<and> (checkEdges sig btv = None \<and> fst (vsyncStep sig btv) = None \<and> FrontPorch sig \<longrightarrow>
        horizPos (snd (Signal gc sig btv)) = - ClocksPerHblank (spec btv))
   \<and> (checkEdges sig btv = None \<and> fst (vsyncStep sig btv) = None \<and> \<not> FrontPorch sig \<longrightarrow>
        horizPos (snd (Signal gc sig btv)) = horizPos btv + 1
        \<and> (ClocksPerVisible (spec btv) < horizPos btv + 1 \<longrightarrow>
             fst (Signal gc sig btv) = Some (FormattedError NoFrontPorch)))"
proof -
  have rejected: "horizPos (snd (Signal gc sig btv)) = horizPos btv"
    if "checkEdges sig btv \<noteq> None"
    using that by (auto simp add: Signal_rejected)
  have failed: "horizPos (snd (Signal gc sig btv)) = horizPos btv"
    if "checkEdges sig btv = None" and "fst (vsyncStep sig btv) \<noteq> None"
  proof -
    from that(2) obtain e where "fst (vsyncStep sig btv) = Some e"
      by auto
    from Signal_vsync_error [OF that(1) this] show ?thesis
      by (simp add: vsyncStep_horizPos)
  qed
  have moved: "position (snd (Signal gc sig btv)) =
        (if FrontPorch sig then (- ClocksPerHblank (spec btv), scanline (snd (vsyncStep sig btv)) + 1)
         else (horizPos btv + 1, scanline (snd (vsyncStep sig btv))))
      \<and> (\<not> FrontPorch sig \<and> ClocksPerVisible (spec btv) < horizPos btv + 1 \<longrightarrow>
             fst (Signal gc sig btv) = Some (FormattedError NoFrontPorch))"
    if "checkEdges sig btv = None" and "fst (vsyncStep sig btv) = None"
  proof -
    from that(2) obtain b1 where b1: "vsyncStep sig btv = (None, b1)"
      by (cases "vsyncStep sig btv") simp
    with vsyncStep_horizPos [of sig btv]
    have same: "horizPos b1 = horizPos btv" "spec b1 = spec btv"
      by simp_all
    from Signal_position [OF that(1) b1]
    have "position (snd (Signal gc sig btv)) = position (snd (scanlineStep sig b1))" .
    moreover have "fst (Signal gc sig btv) = Some (FormattedError NoFrontPorch)"
      if "\<not> FrontPorch sig" and "ClocksPerVisible (spec btv) < horizPos btv + 1"
      using that same
      by (intro Signal_NoFrontPorch [OF \<open>checkEdges sig btv = None\<close> b1] scanlineStep_NoFrontPorch)
        simp_all
    ultimately show ?thesis
      using same b1 by (simp add: position_scanlineStep)
  qed
  from rejected failed moved show ?thesis
    by (auto simp add: position_def)
qed

text \<open>
  A run of signals with nothing set, on a television without renderers whose previous
  signal had neither HSYNC nor CBURST and whose VSYNC count is below the threshold:
  as long as the position does not exceed \<open>ClocksPerVisible\<close>, no call returns an
  error and each moves the position one to the right.
\<close>

definition plainState :: "BasicTelevision \<Rightarrow> bool" where
  "plainState b = (\<not> HSync (prevSignal b) \<and> \<not> CBurst (prevSignal b)
     \<and> vsyncCount b < VsyncClocks (spec b) \<and> renderers b = [])"

lemma plain_signal:
  assumes "plainState b" and "horizPos b + 1 \<le> ClocksPerVisible (spec b)"
  shows "fst (Signal gc zeroSignal b) = None
    \<and> plainState (snd (Signal gc zeroSignal b))
    \<and> spec (snd (Signal gc zeroSignal b)) = spec b
    \<and> horizPos (snd (Signal gc zeroSignal b)) = horizPos b + 1"
  using assms
  by (cases "gc (spec b) 0")
    (simp add: plainState_def tv_steps zeroSignal_def)

lemma plain_run:
  "plainState b \<Longrightarrow> horizPos b + int n \<le> ClocksPerVisible (spec b) \<Longrightarrow>
     fst (Signals gc (replicate n zeroSignal) b) = None
     \<and> spec (snd (Signals gc (replicate n zeroSignal) b)) = spec b
     \<and> horizPos (snd (Signals gc (replicate n zeroSignal) b)) = horizPos b + int n"
proof (induction n arbitrary: b)
  case 0
  then show ?case by simp
next
  case (Suc n)
  from Suc.prems have "horizPos b + 1 \<le> ClocksPerVisible (spec b)"
    by simp
  note step = plain_signal [OF Suc.prems(1) this, of gc]
  obtain b' where one: "Signal gc zeroSignal b = (None, b')"
    using step by (cases "Signal gc zeroSignal b") simp
  with step have plain: "plainState b'"
    and sp: "spec b' = spec b" and hp: "horizPos b' = horizPos b + 1"
    by simp_all
  from Suc.prems(2) sp hp have "horizPos b' + int n \<le> ClocksPerVisible (spec b')"
    by simp
  from Suc.IH [OF plain this] sp hp
  have "fst (Signals gc (replicate n zeroSignal) b') = None
     \<and> spec (snd (Signals gc (replicate n zeroSignal) b')) = spec b
     \<and> horizPos (snd (Signals gc (replicate n zeroSignal) b')) = horizPos b + int (Suc n)"
    by simp
  moreover have "Signals gc (replicate (Suc n) zeroSignal) b = Signals gc (replicate n zeroSignal) b'"
    by (simp add: one)
  ultimately show ?case
    by simp
qed

text \<open>
  C6. The position is to stay within \<open>-ClocksPerHblank\<close> to \<open>ClocksPerVisible - 1\<close>,
  that is -68 to 159, an increment that would leave the range being reported as an
  error. The check after the increment is \<open>horizPos > ClocksPerVisible\<close>, which lets
  one position too many through: on a television just created, FRONTPORCH followed by
  228 signals without FRONTPORCH, one clock more than a scanline has, returns no error
  and leaves the position at 160. The step from 159 to 160 sends the renderers a pixel
  at x = 228, beyond the 228 clocks of the scanline.
\<close>

theorem horizPos_leaves_range:
  "fst (Signals noColor (zeroSignal\<lparr> FrontPorch := True \<rparr> # replicate 228 zeroSignal)
          (NewBasicTelevision ntsc)) = None
   \<and> horizPos (snd (Signals noColor (zeroSignal\<lparr> FrontPorch := True \<rparr> # replicate 228 zeroSignal)
          (NewBasicTelevision ntsc))) = 160
   \<and> ClocksPerVisible (spec (NewBasicTelevision ntsc)) - 1 = 159
   \<and> fst (Signal noColor zeroSignal (tvOneRenderer\<lparr> horizPos := 159 \<rparr>)) = None
   \<and> horizPos (snd (Signal noColor zeroSignal (tvOneRenderer\<lparr> horizPos := 159 \<rparr>))) = 160
   \<and> received (hd (renderers (snd (Signal noColor zeroSignal (tvOneRenderer\<lparr> horizPos := 159 \<rparr>)))))
       = [SetPixel 228 0 0 0 0 False, SetAltPixel 228 0 0 0 0 False]"
proof -
  let ?first = "Signal noColor (zeroSignal\<lparr> FrontPorch := True \<rparr>) (NewBasicTelevision ntsc)"
  obtain b where first: "?first = (None, b)"
    and plain: "plainState b" and sp: "spec b = ntsc" and hp: "horizPos b = - 68"
  proof
    show "?first = (None, snd ?first)" "plainState (snd ?first)" "spec (snd ?first) = ntsc"
      "horizPos (snd ?first) = - 68"
      by (simp_all add: tv_examples tv_steps plainState_def)
  qed
  have "horizPos b + int 228 \<le> ClocksPerVisible (spec b)"
    by (simp add: sp hp ntsc_def)
  from plain_run [OF plain this, of noColor]
  have "fst (Signals noColor (replicate 228 zeroSignal) b) = None"
    and "horizPos (snd (Signals noColor (replicate 228 zeroSignal) b)) = 160"
    by (simp_all add: hp)
  moreover have "Signals noColor (zeroSignal\<lparr> FrontPorch := True \<rparr> # replicate 228 zeroSignal)
          (NewBasicTelevision ntsc) = Signals noColor (replicate 228 zeroSignal) b"
    by (simp only: Signals.simps first andThen_None)
  moreover have "ClocksPerVisible (spec (NewBasicTelevision ntsc)) - 1 = 159"
    "fst (Signal noColor zeroSignal (tvOneRenderer\<lparr> horizPos := 159 \<rparr>)) = None"
    "horizPos (snd (Signal noColor zeroSignal (tvOneRenderer\<lparr> horizPos := 159 \<rparr>))) = 160"
    "received (hd (renderers (snd (Signal noColor zeroSignal (tvOneRenderer\<lparr> horizPos := 159 \<rparr>)))))
       = [SetPixel 228 0 0 0 0 False, SetAltPixel 228 0 0 0 0 False]"
    by (simp_all add: tv_examples tv_steps)
  ultimately show ?thesis
    by simp
qed

section \<open>Memory: the CPU bus (hardware/memory/memory.go)\<close>

text \<open>
  Errors are values. An \<open>errors.AtariError\<close> carries an error number and the values
  its message is formatted from; any other error is a plain message. A run-time panic of
  Go (an index out of range) is a value of its own, so that no path of the code is lost.
\<close>

datatype Errno = MemoryError | UnwritableAddress | UnreadableAddress | ValidationError | PanicError

datatype GoError = AtariError Errno "string list" | PlainError string | RuntimePanic string


text \<open>
  The memory areas of \<open>memorymap\<close>. \<open>memorymap.Area\<close> is an integer type in Go, so a
  value that is none of the four areas exists; \<open>GetArea\<close> answers it with an error.
\<close>

datatype Area = TIA | PIA | RIOT | Cartridge | UndefinedArea

text \<open>
  What \<open>Read\<close> and \<open>Write\<close> call from outside the sources embedded here: the address
  mapping, the table of data-bus masks, the \<open>Read\<close> and \<open>Write\<close> of the memory areas
  and the \<open>Listen\<close> of the cartridge. They are parameters; \<open>'a\<close> is the state of the
  four memory areas together.
\<close>

record 'a Buses =
  MapAddress :: "16 word \<Rightarrow> bool \<Rightarrow> 16 word \<times> Area"
  DataMasks :: "8 word list"
  areaRead :: "Area \<Rightarrow> 16 word \<Rightarrow> 'a \<Rightarrow> (8 word \<times> GoError option) \<times> 'a"
  areaWrite :: "Area \<Rightarrow> 16 word \<Rightarrow> 8 word \<Rightarrow> 'a \<Rightarrow> GoError option \<times> 'a"
  cartListen :: "16 word \<Rightarrow> 8 word \<Rightarrow> 'a \<Rightarrow> GoError option \<times> 'a"

record 'a VCSMemory =
  areas :: 'a
  LastAccessAddress :: "16 word"
  LastAccessValue :: "8 word"
  LastAccessWrite :: bool
  LastAccessID :: int
  accessCount :: int

definition GetArea :: "Area \<Rightarrow> GoError + Area" where
  "GetArea area =
     (case area of
        TIA \<Rightarrow> Inr TIA
      | PIA \<Rightarrow> Inr PIA
      | RIOT \<Rightarrow> Inr RIOT
      | Cartridge \<Rightarrow> Inr Cartridge
      | UndefinedArea \<Rightarrow> Inl (AtariError MemoryError [''area not mapped correctly'']))"

text \<open>
  The bits left on the data bus by the address: its most significant byte when the
  address is above \<open>0xff\<close>, its least significant byte otherwise.
\<close>

definition busBits :: "16 word \<Rightarrow> 8 word" where
  "busBits address =
     (if address > 0xff then ucast (drop_bit 8 address AND 0xff) else ucast (address AND 0x00ff))"

text \<open>
  The masking in \<open>Read\<close>. The comparison \<open>ma < uint16(len(DataMasks))\<close> is between
  16-bit values, and it keeps the index \<open>DataMasks[ma]\<close> within the table.
\<close>

definition applyMask :: "8 word list \<Rightarrow> 16 word \<Rightarrow> 16 word \<Rightarrow> 8 word \<Rightarrow> 8 word" where
  "applyMask masks address ma data =
     (if ma < of_nat (length masks)
      then (data AND masks ! unat ma) OR (busBits address AND (masks ! unat ma XOR 0xff))
      else data)"

definition Read ::
  "'a Buses \<Rightarrow> 16 word \<Rightarrow> 'a VCSMemory \<Rightarrow> (8 word \<times> GoError option) \<times> 'a VCSMemory" where
  "Read buses address mem =
     (case MapAddress buses address True of
        (ma, ar) \<Rightarrow>
          (case GetArea ar of
             Inl e \<Rightarrow> ((0, Some e), mem)
           | Inr area \<Rightarrow>
               (case areaRead buses area ma (areas mem) of
                  ((data, err), a) \<Rightarrow>
                    ((applyMask (DataMasks buses) address ma data, err),
                     mem\<lparr> areas := a,
                          LastAccessAddress := ma,
                          LastAccessWrite := False,
                          LastAccessValue := applyMask (DataMasks buses) address ma data,
                          LastAccessID := accessCount mem,
                          accessCount := accessCount mem + 1 \<rparr>))))"


text \<open>
  The reading of the specification: the bits cleared in the mask come from the high
  byte of the address.
\<close>

definition openBusHighByte :: "8 word \<Rightarrow> 8 word \<Rightarrow> 16 word \<Rightarrow> 8 word" where
  "openBusHighByte chip m address = (chip AND m) OR (ucast (drop_bit 8 address) AND NOT m)"

text \<open>
  A bus configuration that records what is called, for concrete runs: addresses with
  bit 12 set belong to the cartridge, the others are mirrors of sixteen TIA registers of
  which the first two have a mask; the areas read as zero, and the cartridge answers
  every \<open>Listen\<close> with an \<open>UnwritableAddress\<close> error.
\<close>

datatype BusEvent =
  Listened "16 word" "8 word"
  | AreaWritten Area "16 word" "8 word"
  | AreaReadFrom Area "16 word"

definition tracingBuses :: "BusEvent list Buses" where
  "tracingBuses =
     \<lparr> MapAddress = (\<lambda>address read.
          if bit address 12 then (address AND 0x1fff, Cartridge) else (address AND 0x0f, TIA)),
       DataMasks = [0xc0, 0xc0],
       areaRead = (\<lambda>area ma trace. ((0, None), trace @ [AreaReadFrom area ma])),
       areaWrite = (\<lambda>area ma data trace. (None, trace @ [AreaWritten area ma data])),
       cartListen = (\<lambda>address data trace.
          (Some (AtariError UnwritableAddress []), trace @ [Listened address data])) \<rparr>"

definition freshMemory :: "BusEvent list VCSMemory" where
  "freshMemory = \<lparr> areas = [], LastAccessAddress = 0, LastAccessValue = 0,
     LastAccessWrite = False, LastAccessID = 0, accessCount = 0 \<rparr>"



section \<open>Properties of the CPU bus\<close>

lemma bit_0xff: "bit (0xff :: int) n = (n < 8)"
proof -
  have "(0xff :: int) = mask 8"
    by (simp add: mask_eq_exp_minus_1)
  show ?thesis
    unfolding \<open>(0xff :: int) = mask 8\<close> by (simp add: bit_mask_iff)
qed

lemma bit_masked:
  "bit ((d AND m) OR (b AND (m XOR 0xff)) :: 8 word) n = (if bit m n then bit d n else bit b n)"
  by (auto simp add: bit_simps bit_0xff dest: bit_imp_le_length)

lemma bit_busBits:
  "n < 8 \<Longrightarrow> bit (busBits address) n = (if address > 0xff then bit address (n + 8) else bit address n)"
  by (auto simp add: busBits_def bit_simps bit_0xff add.commute)

lemma bit_applyMask:
  assumes "n < 8"
  shows "bit (applyMask masks address ma data) n =
     (if ma < of_nat (length masks) \<and> \<not> bit (masks ! unat ma) n
      then (if address > 0xff then bit address (n + 8) else bit address n)
      else bit data n)"
  using assms by (simp add: applyMask_def bit_masked bit_busBits)

text \<open>
  C3 as stated fails for addresses up to \<open>0xff\<close>: reading address \<open>0x30\<close>, a mirror
  of a masked register whose chip data is zero, returns \<open>0x30\<close>, the low byte of the
  address on the bits cleared in the mask, where the high byte of the address would
  give zero.
\<close>

theorem Read_open_bus_counterexample:
  "fst (fst (Read tracingBuses 0x30 freshMemory)) = 0x30
   \<and> MapAddress tracingBuses 0x30 True = (0, TIA)
   \<and> areaRead tracingBuses TIA 0 (areas freshMemory) = ((0, None), [AreaReadFrom TIA 0])
   \<and> DataMasks tracingBuses ! 0 = 0xc0
   \<and> fst (fst (Read tracingBuses 0x30 freshMemory)) \<noteq> openBusHighByte 0 0xc0 0x30"
  by (simp add: Read_def tracingBuses_def freshMemory_def GetArea_def applyMask_def busBits_def
      openBusHighByte_def)

text \<open>
  C3, amended. For a read of a mapped address with a mask entry, every bit set in the
  mask comes from the chip's data and every bit cleared in the mask comes from the
  address: from its high byte when the address is above \<open>0xff\<close>, from its low byte
  otherwise. For a mapped address with no mask entry the chip's data is returned
  unchanged. The error of the chip's read is returned with the data.
\<close>

theorem Read_open_bus:
  assumes "MapAddress buses address True = (ma, ar)"
    and "GetArea ar = Inr area"
    and "areaRead buses area ma (areas mem) = ((chip, err), a)"
  shows "(\<forall>n < 8. bit (fst (fst (Read buses address mem))) n =
            (if ma < of_nat (length (DataMasks buses)) \<and> \<not> bit (DataMasks buses ! unat ma) n
             then (if address > 0xff then bit address (n + 8) else bit address n)
             else bit chip n))
     \<and> (\<not> ma < of_nat (length (DataMasks buses)) \<longrightarrow> fst (fst (Read buses address mem)) = chip)
     \<and> snd (fst (Read buses address mem)) = err"
proof -
  have "fst (fst (Read buses address mem)) = applyMask (DataMasks buses) address ma chip"
    and "snd (fst (Read buses address mem)) = err"
    using assms by (simp_all add: Read_def)
  then show ?thesis
    by (simp add: bit_applyMask) (simp add: applyMask_def)
qed

theorem Read_open_bus_witness:
  "MapAddress tracingBuses 0x130 True = (0, TIA)
   \<and> GetArea TIA = Inr TIA
   \<and> areaRead tracingBuses TIA 0 (areas freshMemory) = ((0, None), [AreaReadFrom TIA 0])
   \<and> (0 :: 16 word) < of_nat (length (DataMasks tracingBuses))
   \<and> \<not> bit (DataMasks tracingBuses ! unat (0 :: 16 word)) 0
   \<and> (0x130 :: 16 word) > 0xff
   \<and> bit (0x130 :: 16 word) (0 + 8)
   \<and> bit (fst (fst (Read tracingBuses 0x130 freshMemory))) 0
   \<and> snd (fst (Read tracingBuses 0x130 freshMemory)) = None"
proof -
  have a: "MapAddress tracingBuses 0x130 True = (0, TIA)"
    by (simp add: tracingBuses_def bit_iff_and_drop_bit_eq_1)
  have b: "GetArea TIA = Inr TIA"
    by (simp add: GetArea_def)
  have c: "areaRead tracingBuses TIA 0 (areas freshMemory) = ((0, None), [AreaReadFrom TIA 0])"
    by (simp add: tracingBuses_def freshMemory_def)
  have d: "(0 :: 16 word) < of_nat (length (DataMasks tracingBuses))"
    "\<not> bit (DataMasks tracingBuses ! unat (0 :: 16 word)) 0"
    "(0x130 :: 16 word) > 0xff"
    "bit (0x130 :: 16 word) (0 + 8)"
    by (simp_all add: tracingBuses_def bit_iff_and_drop_bit_eq_1)
  from Read_open_bus [OF a b c]
  have "bit (fst (fst (Read tracingBuses 0x130 freshMemory))) 0 =
            (if (0 :: 16 word) < of_nat (length (DataMasks tracingBuses))
                \<and> \<not> bit (DataMasks tracingBuses ! unat (0 :: 16 word)) 0
             then (if (0x130 :: 16 word) > 0xff then bit (0x130 :: 16 word) (0 + 8)
                   else bit (0x130 :: 16 word) 0)
             else bit (0 :: 8 word) 0)"
    and e: "snd (fst (Read tracingBuses 0x130 freshMemory)) = None"
    by simp_all
  with d have "bit (fst (fst (Read tracingBuses 0x130 freshMemory))) 0"
    by simp
  with a b c d e show ?thesis
    by blast
qed





section \<open>Sprites and horizontal movement (the sprite type of the video package)\<close>















section \<open>Properties of horizontal movement\<close>














section \<open>Validation of debugger commands (debugger/terminal/commandline/validation.go)\<close>

text \<open>
  Modelled from the spec: the declaration of the node of a parsed command template is
  missing from the sources embedded here. A node has a tag, a type (the root of a command, or a
  member of a required or of an optional group), the nodes that follow it, its
  alternative branches and the node a repeat group returns to. The nil slice is the empty
  list. \<open>typ\<close> and \<open>next\<close> are \<open>nodeTyp\<close> and \<open>nxt\<close> here.
\<close>

datatype nodeType = nodeRoot | nodeRequired | nodeOptional

datatype node = Node (tag: string) (nodeTyp: nodeType) (nxt: "node list") (branch: "node list")
  (repeat: "node option")

text \<open>
  Modelled from the spec: the queue of tokens is missing from the sources embedded here. It is a
  list of strings with the index of the current token; the operations are what
  \<open>validate\<close> expects of them: \<open>Get\<close> returns the current token and steps
  forward, \<open>Unget\<close> steps back, \<open>Update\<close> replaces the token \<open>Get\<close> returned
  last, \<open>Remainder\<close> joins the tokens still to come.
\<close>

record Tokens =
  tokens :: "string list"
  curr :: nat

definition Peek :: "Tokens \<Rightarrow> string \<times> bool" where
  "Peek tk = (if curr tk \<ge> length (tokens tk) then ([], False) else (tokens tk ! curr tk, True))"

definition Get :: "Tokens \<Rightarrow> (string \<times> bool) \<times> Tokens" where
  "Get tk =
     (if curr tk \<ge> length (tokens tk) then (([], False), tk)
      else ((tokens tk ! curr tk, True), tk\<lparr> curr := curr tk + 1 \<rparr>))"

definition Unget :: "Tokens \<Rightarrow> Tokens" where
  "Unget tk = (if curr tk > 0 then tk\<lparr> curr := curr tk - 1 \<rparr> else tk)"

definition Update :: "string \<Rightarrow> Tokens \<Rightarrow> Tokens" where
  "Update s tk = (if curr tk = 0 then tk else tk\<lparr> tokens := (tokens tk)[curr tk - 1 := s] \<rparr>)"

definition Remaining :: "Tokens \<Rightarrow> int" where
  "Remaining tk = int (length (tokens tk)) - int (curr tk)"

fun joinWith :: "string \<Rightarrow> string list \<Rightarrow> string" where
  "joinWith sep [] = []"
| "joinWith sep [s] = s"
| "joinWith sep (s # t # ts) = s @ sep @ joinWith sep (t # ts)"

definition Remainder :: "Tokens \<Rightarrow> string" where
  "Remainder tk = joinWith '' '' (drop (curr tk) (tokens tk))"

text \<open>
  Modelled from the spec: \<open>TokeniseInput\<close> is missing from the sources embedded here; the
  input is split into its fields at spaces and tabs.
\<close>

fun splitFields :: "string \<Rightarrow> string \<Rightarrow> string list" where
  "splitFields word [] = (if word = [] then [] else [word])"
| "splitFields word (c # cs) =
     (if c = CHR '' '' \<or> c = CHR 0x09
      then (if word = [] then splitFields [] cs else word # splitFields [] cs)
      else splitFields (word @ [c]) cs)"

definition TokeniseInput :: "string \<Rightarrow> Tokens" where
  "TokeniseInput input = \<lparr> tokens = splitFields [] input, curr = 0 \<rparr>"

text \<open>\<open>strings.ToUpper\<close>, on the letters of ASCII.\<close>

definition upperChar :: "char \<Rightarrow> char" where
  "upperChar c =
     (case map_of (zip ''abcdefghijklmnopqrstuvwxyz'' ''ABCDEFGHIJKLMNOPQRSTUVWXYZ'') c of
        Some u \<Rightarrow> u
      | None \<Rightarrow> c)"

definition ToUpper :: "string \<Rightarrow> string" where
  "ToUpper s = map upperChar s"

text \<open>
  What \<open>validate\<close> calls outside this repository, and \<open>nodeVerbose\<close>, which is
  missing from the sources embedded here: whether \<open>strconv.ParseInt(tok, 0, 32)\<close> and
  \<open>strconv.ParseFloat(tok, 32)\<close> accept a token, and the description of a node in
  an error message. They are parameters.
\<close>

record Externals =
  parseInt :: "string \<Rightarrow> bool"
  parseFloat :: "string \<Rightarrow> bool"
  nodeVerbose :: "node \<Rightarrow> string"

text \<open>
  The \<open>switch\<close> on the tag of the node in \<open>validate\<close>. It returns the token, as
  normalised, whether it matches, whether it matches tentatively, and the token queue;
  \<open>tok[0]\<close> panics on an empty token.
\<close>

definition matchTag ::
  "Externals \<Rightarrow> node \<Rightarrow> string \<Rightarrow> Tokens \<Rightarrow> GoError + (string \<times> bool \<times> bool \<times> Tokens)" where
  "matchTag ext n tok tk =
     (if tag n = ''%N''
      then (case tok of
              [] \<Rightarrow> Inl (RuntimePanic ''index out of range'')
            | c # cs \<Rightarrow>
                (let tok' = (if c = CHR ''$'' then ''0x'' @ cs else tok)
                 in Inr (tok', parseInt ext tok', False, Update tok' tk)))
      else if tag n = ''%P'' then Inr (tok, parseFloat ext tok, False, tk)
      else if tag n = ''%S'' then Inr (tok, branch n = [], True, tk)
      else if tag n = ''%F'' then Inr (tok, branch n = [], True, tk)
      else (let tok' = ToUpper tok
            in if tok' = tag n then Inr (tok', True, False, Update tok' tk)
               else Inr (tok', False, False, tk)))"

text \<open>
  \<open>validate\<close>, with the loop over the branches of a node (\<open>validateBranches\<close>,
  which says whether a branch matched) and the loop over the nodes that follow it
  (\<open>validateNext\<close>). The token queue is passed along and returned.
\<close>

fun validate :: "Externals \<Rightarrow> node \<Rightarrow> bool \<Rightarrow> Tokens \<Rightarrow> GoError option \<times> Tokens"
  and validateBranches :: "Externals \<Rightarrow> node list \<Rightarrow> Tokens \<Rightarrow> bool \<times> Tokens"
  and validateNext :: "Externals \<Rightarrow> node list \<Rightarrow> Tokens \<Rightarrow> GoError option \<times> Tokens"
where
  "validate ext (Node tg ty nx br rp) speculative tk =
     (if tg = []
      then (case nx of
              [n0] \<Rightarrow>
                (case validate ext n0 True tk of
                   (None, tk1) \<Rightarrow> (None, tk1)
                 | (Some err, tk1) \<Rightarrow>
                     (case validateBranches ext br tk1 of
                        (True, tk2) \<Rightarrow> (None, tk2)
                      | (False, tk2) \<Rightarrow> (Some err, tk2)))
            | _ \<Rightarrow> (Some (AtariError PanicError
                        [''commandline validation'', ''illegal empty node'']), tk))
      else (case Get tk of
              ((tok, False), tk1) \<Rightarrow>
                (if ty = nodeRequired \<or> ty = nodeRoot
                 then (Some (PlainError (nodeVerbose ext (Node tg ty nx br rp) @ '' required'')), tk1)
                 else (None, tk1))
            | ((tok, True), tk1) \<Rightarrow>
                (case matchTag ext (Node tg ty nx br rp) tok tk1 of
                   Inl panic \<Rightarrow> (Some panic, tk1)
                 | Inr (tok', match, tentativeMatch, tk2) \<Rightarrow>
                     (case (if \<not> match \<and> br \<noteq> []
                            then (case validateBranches ext br tk2 of
                                    (True, tk3) \<Rightarrow> (True, False, tk3)
                                  | (False, tk3) \<Rightarrow> (False, tentativeMatch, tk3))
                            else (False, match, tk2)) of
                        (True, match', tk3) \<Rightarrow> (None, tk3)
                      | (False, match', tk3) \<Rightarrow>
                          (if \<not> match' \<and> (speculative \<or> ty \<noteq> nodeOptional)
                           then (Some (PlainError (''unrecognised argument ('' @ tok' @ '')'')), tk3)
                           else (case validateNext ext nx (if \<not> match' then Unget tk3 else tk3) of
                                   (Some err, tk4) \<Rightarrow> (Some err, tk4)
                                 | (None, tk4) \<Rightarrow>
                                     (case rp of
                                        None \<Rightarrow> (None, tk4)
                                      | Some r \<Rightarrow>
                                          (if Remainder tk \<noteq> Remainder tk4
                                           then validate ext r False tk4
                                           else (None, tk4)))))))))"
| "validateBranches ext [] tk = (False, tk)"
| "validateBranches ext (b # bs) tk =
     (case validate ext b True (Unget tk) of
        (None, tk1) \<Rightarrow> (True, tk1)
      | (Some err, tk1) \<Rightarrow> validateBranches ext bs tk1)"
| "validateNext ext [] tk = (None, tk)"
| "validateNext ext (n # ns) tk =
     (case validate ext n False tk of
        (Some err, tk1) \<Rightarrow> (Some err, tk1)
      | (None, tk1) \<Rightarrow> validateNext ext ns tk1)"

record Commands =
  cmds :: "node list"
  helpCommand :: string

fun validateCommand ::
  "Externals \<Rightarrow> string \<Rightarrow> string \<Rightarrow> node list \<Rightarrow> Tokens \<Rightarrow> GoError option \<times> Tokens" where
  "validateCommand ext help cmd [] tk =
     (Some (PlainError (''unrecognised command ('' @ cmd @ '')'')), tk)"
| "validateCommand ext help cmd (n # ns) tk =
     (if cmd = tag n
      then (case validate ext n False tk of
              (Some err, tk1) \<Rightarrow>
                (case err of
                   AtariError errno values \<Rightarrow> (Some err, tk1)
                 | PlainError msg \<Rightarrow> (Some (AtariError ValidationError [msg]), tk1)
                 | RuntimePanic msg \<Rightarrow> (Some err, tk1))
            | (None, tk1) \<Rightarrow>
                (if Remaining tk1 > 0
                 then (case Get tk1 of
                         ((arg, ok), tk2) \<Rightarrow>
                           (if cmd = help
                            then (Some (AtariError ValidationError
                                    [''no help for '' @ ToUpper arg]), tk2)
                            else (Some (AtariError ValidationError
                                    [''unrecognised argument ('' @ arg @ '') for '' @ cmd]), tk2)))
                 else (None, tk1)))
      else validateCommand ext help cmd ns tk)"

definition ValidateTokens :: "Externals \<Rightarrow> Commands \<Rightarrow> Tokens \<Rightarrow> GoError option \<times> Tokens" where
  "ValidateTokens ext commands tk =
     (case Peek tk of
        (cmd, False) \<Rightarrow> (None, tk)
      | (cmd, True) \<Rightarrow> validateCommand ext (helpCommand commands) (ToUpper cmd) (cmds commands) tk)"

definition Validate :: "Externals \<Rightarrow> Commands \<Rightarrow> string \<Rightarrow> GoError option" where
  "Validate ext commands input = fst (ValidateTokens ext commands (TokeniseInput input))"

text \<open>
  Modelled from the spec: \<open>ParseCommandTemplate\<close> is missing from the sources embedded here.
  This is the template \<open>TEST (arg [%N]|foo)\<close> as a tree of nodes: the command, then
  an optional group of two branches, \<open>arg\<close> followed by a required number, or
  \<open>foo\<close>. Tags are in upper case.
\<close>

definition templateTEST :: Commands where
  "templateTEST =
     \<lparr> cmds =
         [Node ''TEST'' nodeRoot
            [Node ''ARG'' nodeOptional
               [Node ''%N'' nodeRequired [] [] None]
               [Node ''FOO'' nodeOptional [] [] None]
               None]
            [] None],
       helpCommand = [] \<rparr>"

text \<open>Externals for concrete runs: a number is a string of decimal digits.\<close>

definition decimal :: "string \<Rightarrow> bool" where
  "decimal s = (s \<noteq> [] \<and> list_all (\<lambda>c. c \<in> set ''0123456789'') s)"

definition plainExternals :: Externals where
  "plainExternals = \<lparr> parseInt = decimal, parseFloat = decimal, nodeVerbose = tag \<rparr>"

section \<open>Properties of the validation\<close>

lemmas validation_defs =
  Validate_def ValidateTokens_def TokeniseInput_def templateTEST_def Peek_def Get_def Unget_def
  Update_def Remaining_def Remainder_def ToUpper_def upperChar_def matchTag_def Let_def

text \<open>
  The other two inputs of the test of this template: the command alone is valid, and
  \<open>arg\<close> without its number is not.
\<close>

lemma validate_TEST_short:
  "Validate ext templateTEST ''TEST'' = None
   \<and> Validate ext templateTEST ''TEST arg''
       = Some (AtariError ValidationError
           [nodeVerbose ext (Node ''%N'' nodeRequired [] [] None) @ '' required''])"
  by (simp add: validation_defs)

text \<open>
  C8. For the template \<open>TEST (arg [%N]|foo)\<close>, whatever number parser accepts
  \<open>10\<close> and rejects \<open>bar\<close>: validating \<open>TEST arg 10\<close> returns no error, and
  validating \<open>TEST arg bar\<close> returns a ValidationError made from the message
  \<open>unrecognised argument (bar)\<close>.
\<close>

theorem validate_TEST:
  assumes "parseInt ext ''10''" and "\<not> parseInt ext ''bar''"
  shows "Validate ext templateTEST ''TEST arg 10'' = None
    \<and> Validate ext templateTEST ''TEST arg bar''
        = Some (AtariError ValidationError [''unrecognised argument (bar)''])"
  using assms by (simp add: validation_defs)

theorem validate_TEST_witness:
  "parseInt plainExternals ''10'' \<and> \<not> parseInt plainExternals ''bar''
   \<and> Validate plainExternals templateTEST ''TEST arg 10'' = None
   \<and> Validate plainExternals templateTEST ''TEST arg bar''
       = Some (AtariError ValidationError [''unrecognised argument (bar)''])"
proof -
  have accepted: "parseInt plainExternals ''10''"
    and rejected: "\<not> parseInt plainExternals ''bar''"
    by (simp_all add: plainExternals_def decimal_def)
  from validate_TEST [OF accepted rejected] accepted rejected show ?thesis
    by blast
qed

section \<open>Registers (hardware/cpu/registers)\<close>

text \<open>
  Modelled from the spec: the register package is missing from the sources embedded here, which
  hold only its test. A register is an n-bit unsigned cell constructed from an initial
  value and a width; all operations are modulo the n-th power of two, the carry of an
  addition is the carry out of bit n - 1 as on a 6502, and printing gives the binary
  representation at the fixed width n, most significant bit first.
\<close>

record Register =
  contents :: int
  width :: nat

definition Generate :: "int \<Rightarrow> nat \<Rightarrow> Register" where
  "Generate v n = \<lparr> contents = v mod 2 ^ n, width = n \<rparr>"

definition Load :: "int \<Rightarrow> Register \<Rightarrow> Register" where
  "Load v r = r\<lparr> contents := v mod 2 ^ width r \<rparr>"

definition Add :: "int \<Rightarrow> bool \<Rightarrow> Register \<Rightarrow> bool \<times> Register" where
  "Add v carryIn r =
     (let total = contents r + v mod 2 ^ width r + (if carryIn then 1 else 0)
      in (total \<ge> 2 ^ width r, r\<lparr> contents := total mod 2 ^ width r \<rparr>))"

definition ToBits :: "Register \<Rightarrow> string" where
  "ToBits r =
     map (\<lambda>i. if odd (contents r div 2 ^ i) then CHR ''1'' else CHR ''0'') (rev [0..<width r])"

section \<open>Properties of the registers\<close>

text \<open>
  C9. A 16-bit register constructed with the value 0, after \<open>Load(127)\<close> and
  \<open>Add(2, false)\<close>, holds 129, its binary representation is
  \<open>0000000010000001\<close>, and the addition returns no carry.
\<close>

theorem register_add:
  "contents (snd (Add 2 False (Load 127 (Generate 0 16)))) = 129
   \<and> ToBits (snd (Add 2 False (Load 127 (Generate 0 16)))) = ''0000000010000001''
   \<and> \<not> fst (Add 2 False (Load 127 (Generate 0 16)))"
  by (simp add: Generate_def Load_def Add_def ToBits_def Let_def
      upt_rec [of _ "numeral n" for n] upt_rec [of _ "Suc n" for n])

end
